theory Spec2Isabelle
  imports Main "HOL-Library.Word" "HOL-Library.Sublist"
begin

unbundle bit_operations_syntax

section \<open>Data model of connection.go\<close>

text \<open>
  Go's \<open>int64\<close> is a 64-bit word read as two's complement: timestamps are compared with
  the signed orders \<open>\<le>s\<close> and \<open><s\<close>. An \<open>error\<close> value is represented by its message.
  \<open>whapp.ID\<close> is declared outside this file; it is represented by the text its
  \<open>String()\<close> method gives, which is the key the timestamp map is addressed with.
\<close>

type_synonym int64 = "64 word"
type_synonym error = string
type_synonym ID = string

text \<open>\<open>math.MinInt64\<close>\<close>

definition MinInt64 :: int64 where
  "MinInt64 = 0x8000000000000000"

text \<open>
  \<open>whapp.Message\<close>, \<open>whapp.Chat\<close> and \<open>whapp.Participant\<close> belong to the platform client;
  only the fields this file reads are kept. \<open>wTitle\<close> stands for the result of
  \<open>chat.Title()\<close>, \<open>SafeName\<close> for the result of \<open>participant.SafeName()\<close> and \<open>IsMe\<close>
  for \<open>participant.Contact.IsMe\<close>.
\<close>

record whappMessage =
  msgID :: string
  Timestamp :: int64

record whappChat =
  wID :: ID
  wTimestamp :: int64
  wIsGroupChat :: bool
  wDescription :: "string option"
  wTitle :: string

record Participant =
  IsAdmin :: bool
  IsMe :: bool
  SafeName :: string

record Chat =
  ID :: ID
  Name :: string
  IsGroupChat :: bool
  Participants :: "Participant list"
  Joined :: bool
  MessageIDs :: "string list"
  rawChat :: whappChat

text \<open>
  Modelled from the spec: \<open>TimestampMap\<close> (declared in another file of the repository), the
  Watermark Map "from chat identifier to the timestamp of the newest message already
  delivered". It is kept as an association list with one entry per key. \<open>Get\<close> gives the
  value and whether the key was found, and the zero value on a miss as a Go map lookup
  does; \<open>Set\<close> overwrites or adds one entry; \<open>Swap\<close> replaces the whole content;
  \<open>Length\<close> counts the entries; \<open>GetCopy\<close> gives a snapshot.
\<close>

type_synonym TimestampMap = "(string \<times> int64) list"

definition MakeTimestampMap :: TimestampMap where
  "MakeTimestampMap = []"

definition tm_Get :: "TimestampMap \<Rightarrow> string \<Rightarrow> int64 \<times> bool" where
  "tm_Get tm k = (case map_of tm k of None \<Rightarrow> (0, False) | Some v \<Rightarrow> (v, True))"

fun tm_Set :: "TimestampMap \<Rightarrow> string \<Rightarrow> int64 \<Rightarrow> TimestampMap" where
  "tm_Set [] k v = [(k, v)]"
| "tm_Set ((k', v') # tm) k v = (if k' = k then (k, v) # tm else (k', v') # tm_Set tm k v)"

definition tm_Swap :: "TimestampMap \<Rightarrow> TimestampMap \<Rightarrow> TimestampMap" where
  "tm_Swap tm new = new"

definition tm_Length :: "TimestampMap \<Rightarrow> nat" where
  "tm_Length tm = length tm"

definition tm_GetCopy :: "TimestampMap \<Rightarrow> TimestampMap" where
  "tm_GetCopy tm = tm"

text \<open>
  \<open>database.User\<close>, the persisted record, and the fields of \<open>Connection\<close> that the
  functions below read or write. The capability map is kept as the list of capability
  names the client asserted; the bridge, the socket and the channels appear only through
  the events their use produces.
\<close>

record User =
  LocalStorage :: "(string \<times> string) list"
  LastReceivedReceipts :: TimestampMap

record Connection =
  Chats :: "Chat list"
  nickname :: string
  me :: string
  caps :: "string list"
  welcomed :: bool
  localStorage :: "(string \<times> string) list"
  timestampMap :: TimestampMap

definition HasCapability :: "Connection \<Rightarrow> string \<Rightarrow> bool" where
  "HasCapability conn name = (name \<in> set (caps conn))"

text \<open>\<open>MakeConnection\<close>: no chat, no nickname, an empty timestamp map.\<close>

definition MakeConnection :: Connection where
  "MakeConnection = \<lparr> Chats = [], nickname = [], me = [], caps = [], welcomed = False,
                       localStorage = [], timestampMap = MakeTimestampMap \<rparr>"

text \<open>
  What a run does besides changing the connection is recorded as a list of events, in
  the order the code performs them.
\<close>

datatype event =
    Log string
  | Write string
  | Status string
  | BridgeStop
  | BridgeStart
  | Sleep nat
  | SaveItem string User
  | Delivered whappMessage
  | Fetch ID int64
  | RemoveFile string
  | CloseWelcomeCh
  | CancelCtx
  | SocketClose

definition delivered :: "event list \<Rightarrow> whappMessage list" where
  "delivered evs = concat (map (\<lambda>e. case e of Delivered m \<Rightarrow> [m] | _ \<Rightarrow> []) evs)"

section \<open>The chat list: convertChat and addChat\<close>

text \<open>
  \<open>convertChat\<close> asks the platform for the participants of the chat, which may fail; the
  outcome of that call is the parameter \<open>parts\<close>. \<open>newChat\<close> is the chat it builds from
  the platform's chat and the participants.
\<close>

definition newChat :: "whappChat \<Rightarrow> Participant list \<Rightarrow> Chat" where
  "newChat chat converted =
     \<lparr> ID = wID chat, Name = wTitle chat, IsGroupChat = wIsGroupChat chat,
       Participants = converted, Joined = False, MessageIDs = [], rawChat = chat \<rparr>"

definition convertChat :: "(whappChat \<Rightarrow> error + Participant list) \<Rightarrow> whappChat \<Rightarrow> error + Chat" where
  "convertChat parts chat =
     (case parts chat of
        Inl err \<Rightarrow> Inl err
      | Inr participants \<Rightarrow> Inr (newChat chat participants))"

text \<open>
  The loop of \<open>addChat\<close>: the first entry with the same ID is overwritten at its index;
  when there is none the chat is appended.
\<close>

fun upsertChat :: "Chat list \<Rightarrow> Chat \<Rightarrow> Chat list" where
  "upsertChat [] chat = [chat]"
| "upsertChat (c # cs) chat = (if ID c = ID chat then chat # cs else c # upsertChat cs chat)"

text \<open>
  The line \<open>addChat\<close> logs: \<open>"%-30s %3d participants"\<close> for a group chat, the identifier
  alone otherwise. \<open>showNat\<close> is \<open>%d\<close> of a number that is not negative, \<open>padRight\<close> and
  \<open>padLeft\<close> are the widths of \<open>%-30s\<close> and \<open>%3d\<close>, which add spaces and cut nothing.
  A width counts the characters of the text.
\<close>

function showNat :: "nat \<Rightarrow> string" where
  "showNat n = (if n < 10 then [''0123456789'' ! n]
                else showNat (n div 10) @ [''0123456789'' ! (n mod 10)])"
  by pat_completeness auto
termination
  by (relation "measure id") auto

declare showNat.simps [simp del]

definition padRight :: "nat \<Rightarrow> string \<Rightarrow> string" where
  "padRight width str = str @ replicate (width - length str) CHR '' ''"

definition padLeft :: "nat \<Rightarrow> string \<Rightarrow> string" where
  "padLeft width str = replicate (width - length str) CHR '' '' @ str"

definition addChatLog :: "(Chat \<Rightarrow> string) \<Rightarrow> Chat \<Rightarrow> string" where
  "addChatLog Identifier chat =
     (if IsGroupChat chat then
        padRight 30 (Identifier chat) @ '' '' @ padLeft 3 (showNat (length (Participants chat)))
          @ '' participants''
      else Identifier chat)"

definition addChat :: "(whappChat \<Rightarrow> error + Participant list) \<Rightarrow> (Chat \<Rightarrow> string)
    \<Rightarrow> Connection \<Rightarrow> whappChat \<Rightarrow> (error + Chat) \<times> Connection \<times> event list" where
  "addChat parts Identifier conn raw =
     (case convertChat parts raw of
        Inl err \<Rightarrow> (Inl err, conn, [])
      | Inr chat \<Rightarrow>
          (Inr chat, conn\<lparr>Chats := upsertChat (Chats conn) chat\<rparr>,
           [Log (addChatLog Identifier chat)]))"

text \<open>A sequence of \<open>addChat\<close> calls, each going on from the connection the last one left,
  whether it failed or not.\<close>

fun addChats :: "(whappChat \<Rightarrow> error + Participant list) \<Rightarrow> (Chat \<Rightarrow> string)
    \<Rightarrow> Connection \<Rightarrow> whappChat list \<Rightarrow> Connection" where
  "addChats parts Identifier conn [] = conn"
| "addChats parts Identifier conn (raw # raws) =
     addChats parts Identifier (fst (snd (addChat parts Identifier conn raw))) raws"

section \<open>joinChat\<close>

text \<open>
  \<open>writeIRCNow\<close> is not part of this file: whether a write succeeds is the parameter \<open>w\<close>
  (the error it returns for a line, if any). The event \<open>Write str\<close> stands for a line
  that was written, so a failed write leaves no event.
\<close>

definition writeIRCNow :: "(string \<Rightarrow> error option) \<Rightarrow> string \<Rightarrow> error option \<times> event list" where
  "writeIRCNow w str = (case w str of None \<Rightarrow> (None, [Write str]) | Some err \<Rightarrow> (Some err, []))"

text \<open>\<open>strings.Join\<close> and \<open>strings.Replace(d, "\n", " ", -1)\<close>\<close>

fun Join :: "string list \<Rightarrow> string \<Rightarrow> string" where
  "Join [] sep = []"
| "Join [x] sep = x"
| "Join (x # y # ys) sep = x @ sep @ Join (y # ys) sep"

definition flattenNewlines :: "string \<Rightarrow> string" where
  "flattenNewlines d = map (\<lambda>c. if c = CHR 0x0A then CHR '' '' else c) d"

text \<open>
  The loop over the participants: the MODE line for an admin self participant is written
  with its error dropped; every other participant adds a name.
\<close>

fun namesLoop :: "(string \<Rightarrow> error option) \<Rightarrow> string \<Rightarrow> string \<Rightarrow> Participant list
    \<Rightarrow> string list \<times> event list" where
  "namesLoop w nick identifier [] = ([], [])"
| "namesLoop w nick identifier (participant # rest) =
     (case namesLoop w nick identifier rest of (names, evs) \<Rightarrow>
        if IsMe participant then
          (if IsAdmin participant then
             (names, snd (writeIRCNow w ('':whapp-irc MODE '' @ identifier @ '' +o '' @ nick)) @ evs)
           else (names, evs))
        else (((if IsAdmin participant then ''@'' else []) @ SafeName participant) # names, evs))"

text \<open>
  \<open>joinChat\<close>. The chat is a pointer: \<open>None\<close> is nil, and the function gives back the chat
  object as the call leaves it, next to the returned error and the lines written.
  \<open>chat.Identifier()\<close> and \<open>strings.TrimSpace\<close> are the parameters \<open>Identifier\<close> and
  \<open>TrimSpace\<close>.
\<close>

definition topicLine :: "(string \<Rightarrow> string) \<Rightarrow> string \<Rightarrow> string \<Rightarrow> Chat \<Rightarrow> string" where
  "topicLine TrimSpace nick identifier chat =
     (let topic = '':whapp-irc 332 '' @ nick @ '' '' @ identifier @ '' :'' @ Name chat in
      case wDescription (rawChat chat) of
        None \<Rightarrow> topic
      | Some desc \<Rightarrow>
          (let d = TrimSpace desc in
           if d \<noteq> [] then topic @ '': '' @ flattenNewlines d else topic))"

text \<open>The JOIN line, the names line and the end-of-names line.\<close>

definition joinLine :: "string \<Rightarrow> string \<Rightarrow> string" where
  "joinLine nick identifier = '':'' @ nick @ '' JOIN '' @ identifier"

definition namesLine :: "string \<Rightarrow> string \<Rightarrow> string list \<Rightarrow> string" where
  "namesLine nick identifier names =
     '':whapp-irc 353 '' @ nick @ '' @ '' @ identifier @ '' :'' @ Join names '' ''"

definition endLine :: "string \<Rightarrow> string \<Rightarrow> string" where
  "endLine nick identifier =
     '':whapp-irc 366 '' @ nick @ '' '' @ identifier @ '' :End of /NAMES list.''"

definition joinChat :: "(Chat \<Rightarrow> string) \<Rightarrow> (string \<Rightarrow> string) \<Rightarrow> (string \<Rightarrow> error option)
    \<Rightarrow> Connection \<Rightarrow> Chat option \<Rightarrow> error option \<times> Chat option \<times> event list" where
  "joinChat Identifier TrimSpace w conn ref =
     (case ref of
        None \<Rightarrow> (Some ''chat is nil'', None, [])
      | Some chat \<Rightarrow>
          if \<not> IsGroupChat chat then (Some ''not a group chat'', Some chat, [])
          else if Joined chat then (None, Some chat, [])
          else
            (let identifier = Identifier chat;
                 nick = nickname conn in
             case writeIRCNow w (joinLine nick identifier) of
               (Some err, ev1) \<Rightarrow> (Some err, Some chat, ev1)
             | (None, ev1) \<Rightarrow>
             (case writeIRCNow w (topicLine TrimSpace nick identifier chat) of
               (Some err, ev2) \<Rightarrow> (Some err, Some chat, ev1 @ ev2)
             | (None, ev2) \<Rightarrow>
             (case namesLoop w nick identifier (Participants chat) of (names, ev3) \<Rightarrow>
             (case writeIRCNow w (namesLine nick identifier names) of
               (Some err, ev4) \<Rightarrow> (Some err, Some chat, ev1 @ ev2 @ ev3 @ ev4)
             | (None, ev4) \<Rightarrow>
             (case writeIRCNow w (endLine nick identifier) of
               (Some err, ev5) \<Rightarrow> (Some err, Some chat, ev1 @ ev2 @ ev3 @ ev4 @ ev5)
             | (None, ev5) \<Rightarrow>
                 (None, Some (chat\<lparr>Joined := True\<rparr>), ev1 @ ev2 @ ev3 @ ev4 @ ev5)))))))"

text \<open>The lines a run wrote.\<close>

definition written :: "event list \<Rightarrow> string list" where
  "written evs = concat (map (\<lambda>e. case e of Write str \<Rightarrow> [str] | _ \<Rightarrow> []) evs)"

section \<open>saveDatabaseEntry\<close>

text \<open>
  \<open>userDb.SaveItem\<close> is an external store: the error it returns for a nickname and a
  record is the parameter \<open>store\<close>. The function reads the connection and does not
  write it.
\<close>

definition saveDatabaseEntry :: "(string \<Rightarrow> User \<Rightarrow> error option) \<Rightarrow> Connection
    \<Rightarrow> error option \<times> event list" where
  "saveDatabaseEntry store conn =
     (let user = \<lparr> LocalStorage = localStorage conn,
                   LastReceivedReceipts = tm_GetCopy (timestampMap conn) \<rparr>;
          err = store (nickname conn) user in
      (err, SaveItem (nickname conn) user #
            (case err of None \<Rightarrow> []
             | Some e \<Rightarrow> [Log (''error while updating user entry: '' @ e)])))"

section \<open>Catch-up in BindSocket\<close>

text \<open>
  \<open>handleWhappMessage\<close> and \<open>GetMessagesFromChatTillDate\<close> are not part of this file. The
  handler is the parameter \<open>handle\<close>: from the connection and a message it gives the
  error it returns, if any, and the connection it leaves. A message whose handler
  returned nil is recorded as \<open>Delivered\<close>. The fetch is the parameter \<open>fetch\<close>.

  The inner loop over the fetched messages compares every message with the same
  \<open>prevTimestamp\<close> and returns the first error of the handler.
\<close>

type_synonym handler = "Connection \<Rightarrow> whappMessage \<Rightarrow> error option \<times> Connection"
type_synonym fetcher = "whappChat \<Rightarrow> int64 \<Rightarrow> error + whappMessage list"

fun replayMessages :: "handler \<Rightarrow> int64 \<Rightarrow> whappMessage list \<Rightarrow> Connection
    \<Rightarrow> error option \<times> Connection \<times> event list" where
  "replayMessages handle prevTimestamp [] conn = (None, conn, [])"
| "replayMessages handle prevTimestamp (msg # rest) conn =
     (if Timestamp msg \<le>s prevTimestamp then replayMessages handle prevTimestamp rest conn
      else
        (case handle conn msg of
           (Some err, conn') \<Rightarrow>
             (Some err, conn', [Log (''error handling older whapp message: '' @ err)])
         | (None, conn') \<Rightarrow>
             (case replayMessages handle prevTimestamp rest conn' of
                (r, conn'', evs) \<Rightarrow> (r, conn'', Delivered msg # evs))))"

text \<open>
  One round of the loop over the chats. \<open>Some err\<close> is \<open>return err\<close>; \<open>None\<close> goes on
  with the next chat. \<open>go conn.saveDatabaseEntry()\<close> starts a goroutine that may run at
  any later moment; here it is run where it is started, so that its snapshot is the map
  of that moment, and its error is dropped as the goroutine drops it.
\<close>

definition catchupChat :: "fetcher \<Rightarrow> handler \<Rightarrow> (string \<Rightarrow> User \<Rightarrow> error option) \<Rightarrow> bool
    \<Rightarrow> Chat \<Rightarrow> Connection \<Rightarrow> error option \<times> Connection \<times> event list" where
  "catchupChat fetch handle store empty' c conn =
     (case tm_Get (timestampMap conn) (ID c) of (prevTimestamp, found) \<Rightarrow>
        if empty' \<or> \<not> HasCapability conn ''whapp-irc/replay'' then
          (let conn' = conn\<lparr>timestampMap :=
                              tm_Set (timestampMap conn) (ID c) (wTimestamp (rawChat c))\<rparr> in
           (None, conn', snd (saveDatabaseEntry store conn')))
        else if wTimestamp (rawChat c) \<le>s prevTimestamp then (None, conn, [])
        else
          (let prevTimestamp' = (if \<not> found then MinInt64 else prevTimestamp) in
           case fetch (rawChat c) prevTimestamp' of
             Inl err \<Rightarrow>
               (Some err, conn,
                [Fetch (ID c) prevTimestamp',
                 Log (''error while loading earlier messages: '' @ err)])
           | Inr messages \<Rightarrow>
               (case replayMessages handle prevTimestamp' messages conn of
                  (r, conn', evs) \<Rightarrow> (r, conn', Fetch (ID c) prevTimestamp' # evs))))"

fun catchupChats :: "fetcher \<Rightarrow> handler \<Rightarrow> (string \<Rightarrow> User \<Rightarrow> error option) \<Rightarrow> bool
    \<Rightarrow> Chat list \<Rightarrow> Connection \<Rightarrow> error option \<times> Connection \<times> event list" where
  "catchupChats fetch handle store empty' [] conn = (None, conn, [])"
| "catchupChats fetch handle store empty' (c # cs) conn =
     (case catchupChat fetch handle store empty' c conn of
        (Some err, conn', evs) \<Rightarrow> (Some err, conn', evs)
      | (None, conn', evs) \<Rightarrow>
          (case catchupChats fetch handle store empty' cs conn' of
             (r, conn'', evs') \<Rightarrow> (r, conn'', evs @ evs')))"

text \<open>
  The whole catch-up: \<open>empty\<close> is read once before the loop, the loop ranges over the
  chat list as it is when the loop starts, and the status line follows a loop that was
  not left by \<open>return err\<close>.
\<close>

definition catchup :: "fetcher \<Rightarrow> handler \<Rightarrow> (string \<Rightarrow> User \<Rightarrow> error option) \<Rightarrow> Connection
    \<Rightarrow> error option \<times> Connection \<times> event list" where
  "catchup fetch handle store conn =
     (let empty' = (tm_Length (timestampMap conn) = 0) in
      case catchupChats fetch handle store empty' (Chats conn) conn of
        (Some err, conn', evs) \<Rightarrow> (Some err, conn', evs)
      | (None, conn', evs) \<Rightarrow> (None, conn', evs @ [Status ''ready for new messages'']))"

text \<open>The write of the branch without replay, as a function of the map and the chat.\<close>

abbreviation (input) reset :: "TimestampMap \<Rightarrow> Chat \<Rightarrow> TimestampMap" where
  "reset tm c \<equiv> tm_Set tm (ID c) (wTimestamp (rawChat c))"

text \<open>The order of two messages by timestamp.\<close>

abbreviation (input) ts_le :: "whappMessage \<Rightarrow> whappMessage \<Rightarrow> bool" where
  "ts_le a b \<equiv> Timestamp a \<le>s Timestamp b"

section \<open>Live relay in BindSocket\<close>

text \<open>
  The goroutine of the live relay selects among the cancellation of the context, an error
  of the listener and the next future of the queue; what the select yields, round after
  round, is the input list. A future resolves to a \<open>MessageRes\<close>: an error or a message.
  An empty list is a loop that waits.
\<close>

datatype liveInput = CtxDone | ListenErr error | MsgFut "error + whappMessage"

fun liveRelay :: "handler \<Rightarrow> liveInput list \<Rightarrow> Connection \<Rightarrow> Connection \<times> event list" where
  "liveRelay handle [] conn = (conn, [])"
| "liveRelay handle (CtxDone # rest) conn = (conn, [])"
| "liveRelay handle (ListenErr err # rest) conn =
     (conn, [Log (''error while listening for whatsapp messages: '' @ err)])"
| "liveRelay handle (MsgFut (Inl err) # rest) conn =
     (case liveRelay handle rest conn of
        (conn', evs) \<Rightarrow> (conn', Log (''error handling new whapp message: '' @ err) # evs))"
| "liveRelay handle (MsgFut (Inr msg) # rest) conn =
     (case handle conn msg of
        (Some err, conn') \<Rightarrow>
          (case liveRelay handle rest conn' of
             (conn'', evs) \<Rightarrow> (conn'', Log (''error handling new whapp message: '' @ err) # evs))
      | (None, conn') \<Rightarrow>
          (case liveRelay handle rest conn' of
             (conn'', evs) \<Rightarrow> (conn'', Delivered msg # evs)))"

section \<open>setup\<close>

text \<open>
  \<open>Connection.setup\<close>, here \<open>conn_setup\<close>, calls the bridge, the platform client, the
  user store, the blob store and the QR encoder. What each of these calls returns during
  one run is a field of the record \<open>env\<close>. A call that returns a value and an error, and
  whose value is stored before the error is looked at (\<open>GetLocalStorage\<close>, \<open>GetMe\<close>), is
  a pair. The object the user store returns is opaque until \<open>mapstructure.Decode\<close> reads
  it. \<open>conn.status\<close> is not part of this file: the event \<open>Status msg\<close> stands for the
  call, and \<open>status_res\<close> for what it returns.
\<close>

datatype State = Loggedin | Loggedout

type_synonym obj = string

record env =
  Start_res :: "error option"
  GetItem_res :: "string \<Rightarrow> error + obj option"
  Decode_res :: "obj \<Rightarrow> error + User"
  OpenResume_res :: "error option"
  SetLocalStorage_res :: "(string \<times> string) list \<Rightarrow> error option"
  Open_res :: "error + State"
  GetLoginCode_res :: "error + string"
  Encode_res :: "string \<Rightarrow> error + string"
  AddBlob_res :: "string \<Rightarrow> error + string"
  RemoveFile_res :: "string \<Rightarrow> error option"
  status_res :: "string \<Rightarrow> error option"
  WaitLogin_res :: "error option"
  GetLocalStorage_res :: "(string \<times> string) list \<times> error option"
  SaveItem_res :: "string \<Rightarrow> User \<Rightarrow> error option"
  GetMe_res :: "string \<times> error option"
  GetAllChats_res :: "error + whappChat list"
  Participants_res :: "whappChat \<Rightarrow> error + Participant list"

text \<open>The lookup of the persisted record and, when one is found, its restore.\<close>

definition setup_restore :: "env \<Rightarrow> Connection \<Rightarrow> error option \<times> Connection \<times> event list" where
  "setup_restore e conn =
     (case GetItem_res e (nickname conn) of
        Inl err \<Rightarrow> (Some err, conn, [])
      | Inr None \<Rightarrow> (None, conn, [])
      | Inr (Some ob) \<Rightarrow>
          (case Decode_res e ob of
             Inl err \<Rightarrow> (Some err, conn, [])
           | Inr user \<Rightarrow>
               (let conn' = conn\<lparr>timestampMap :=
                                   tm_Swap (timestampMap conn) (LastReceivedReceipts user)\<rparr> in
                case OpenResume_res e of
                  Some err \<Rightarrow> (Some err, conn', [])
                | None \<Rightarrow>
                    (case SetLocalStorage_res e (LocalStorage user) of
                       Some err \<Rightarrow>
                         (None, conn', [Log (''error while setting local storage: '' @ err)])
                     | None \<Rightarrow> (None, conn', [])))))"

text \<open>Fetching the local storage and saving the record.\<close>

definition setup_persist :: "env \<Rightarrow> Connection \<Rightarrow> error option \<times> Connection \<times> event list" where
  "setup_persist e conn =
     (case GetLocalStorage_res e of (ls, err) \<Rightarrow>
        (let conn' = conn\<lparr>localStorage := ls\<rparr> in
         case err of
           Some er \<Rightarrow> (None, conn', [Log (''error while getting local storage: '' @ er)])
         | None \<Rightarrow>
             (case saveDatabaseEntry (SaveItem_res e) conn' of
                (Some er, evs) \<Rightarrow> (Some er, conn', evs)
              | (None, evs) \<Rightarrow> (None, conn', evs))))"

text \<open>The loop over the chats the platform lists: the first failing \<open>addChat\<close> ends it.\<close>

fun setup_chats :: "env \<Rightarrow> (Chat \<Rightarrow> string) \<Rightarrow> whappChat list \<Rightarrow> Connection
    \<Rightarrow> error option \<times> Connection \<times> event list" where
  "setup_chats e Identifier [] conn = (None, conn, [])"
| "setup_chats e Identifier (chat # chats) conn =
     (case addChat (Participants_res e) Identifier conn chat of
        (Inl err, conn', evs) \<Rightarrow> (Some err, conn', evs)
      | (Inr c, conn', evs) \<Rightarrow>
          (case setup_chats e Identifier chats conn' of
             (r, conn'', evs') \<Rightarrow> (r, conn'', evs @ evs')))"

text \<open>From \<open>WaitLogin\<close> to the end of \<open>setup\<close>.\<close>

definition setup_login :: "env \<Rightarrow> (Chat \<Rightarrow> string) \<Rightarrow> Connection
    \<Rightarrow> error option \<times> Connection \<times> event list" where
  "setup_login e Identifier conn =
     (case WaitLogin_res e of
        Some err \<Rightarrow> (Some err, conn, [])
      | None \<Rightarrow>
          (case setup_persist e conn of
             (Some err, conn1, ev1) \<Rightarrow> (Some err, conn1, Status ''logged in'' # ev1)
           | (None, conn1, ev1) \<Rightarrow>
               (case GetMe_res e of (m, err) \<Rightarrow>
                  (let conn2 = conn1\<lparr>me := m\<rparr> in
                   case err of
                     Some er \<Rightarrow> (Some er, conn2, Status ''logged in'' # ev1)
                   | None \<Rightarrow>
                       (case GetAllChats_res e of
                          Inl er \<Rightarrow> (Some er, conn2, Status ''logged in'' # ev1)
                        | Inr chats \<Rightarrow>
                            (case setup_chats e Identifier chats conn2 of
                               (r, conn3, ev3) \<Rightarrow>
                                 (r, conn3, Status ''logged in'' # ev1 @ ev3)))))))"

text \<open>
  The login code, when the session is logged out. The deferred removal of the QR file
  runs when \<open>setup\<close> returns, whatever it returns, once the file has been added.
\<close>

definition setup_qr :: "env \<Rightarrow> (Chat \<Rightarrow> string) \<Rightarrow> Connection
    \<Rightarrow> error option \<times> Connection \<times> event list" where
  "setup_qr e Identifier conn =
     (case GetLoginCode_res e of
        Inl err \<Rightarrow> (Some (''Error while retrieving login code: '' @ err), conn, [])
      | Inr code \<Rightarrow>
          (case Encode_res e code of
             Inl err \<Rightarrow> (Some err, conn, [])
           | Inr bytes \<Rightarrow>
               (case AddBlob_res e bytes of
                  Inl err \<Rightarrow> (Some err, conn, [])
                | Inr qrFile \<Rightarrow>
                    (let removal = RemoveFile qrFile #
                           (case RemoveFile_res e qrFile of
                              None \<Rightarrow> []
                            | Some er \<Rightarrow> [Log (''error while removing QR code: '' @ er)]);
                         msg = ''Scan this QR code: '' @ qrFile in
                     case status_res e msg of
                       Some err \<Rightarrow> (Some err, conn, Status msg # removal)
                     | None \<Rightarrow>
                         (case setup_login e Identifier conn of
                            (r, conn', evs) \<Rightarrow> (r, conn', Status msg # evs @ removal))))))"

definition conn_setup :: "env \<Rightarrow> (Chat \<Rightarrow> string) \<Rightarrow> Connection
    \<Rightarrow> error option \<times> Connection \<times> event list" where
  "conn_setup e Identifier conn =
     (case Start_res e of
        Some err \<Rightarrow> (Some err, conn, [BridgeStart])
      | None \<Rightarrow>
          (case setup_restore e conn of
             (Some err, conn1, ev1) \<Rightarrow> (Some err, conn1, BridgeStart # ev1)
           | (None, conn1, ev1) \<Rightarrow>
               (case Open_res e of
                  Inl err \<Rightarrow> (Some err, conn1, BridgeStart # ev1)
                | Inr state \<Rightarrow>
                    (case (if state = Loggedout then setup_qr e Identifier conn1
                           else setup_login e Identifier conn1) of
                       (r, conn2, ev2) \<Rightarrow> (r, conn2, BridgeStart # ev1 @ ev2)))))"

section \<open>The welcome closure and the NICK command\<close>

text \<open>
  Modelled from the spec: \<open>retry.Do\<close> of the retry library, which is not part of the
  repository, "a bounded-retry supervisor: on any failure the sequence [is] retried, up
  to [\<open>attempts\<close>] attempts"; an attempt that succeeds ends it. The function retried gets
  the number of the attempt, from 0, so that each attempt can meet different answers of
  the outside world. How long the library sleeps after a failed attempt and which error it
  builds from the errors of the attempts are its own and are parameters: \<open>delayOf i\<close> is
  the sleep after the failed attempt \<open>i\<close>, \<open>errorOf errs\<close> the error returned for the
  errors \<open>errs\<close> of all attempts, in their order. With no attempt allowed nothing is run.
\<close>

fun retry_Do :: "(nat \<Rightarrow> 's \<Rightarrow> error option \<times> 's \<times> event list) \<Rightarrow> nat \<Rightarrow> (nat \<Rightarrow> nat)
    \<Rightarrow> (error list \<Rightarrow> error) \<Rightarrow> nat \<Rightarrow> error list \<Rightarrow> 's \<Rightarrow> error option \<times> 's \<times> event list" where
  "retry_Do f 0 delayOf errorOf i errs s = (None, s, [])"
| "retry_Do f (Suc n) delayOf errorOf i errs s =
     (case f i s of
        (None, s', evs) \<Rightarrow> (None, s', evs)
      | (Some err, s', evs) \<Rightarrow>
          if n = 0 then (Some (errorOf (errs @ [err])), s', evs)
          else (case retry_Do f n delayOf errorOf (Suc i) (errs @ [err]) s' of
                  (r, s'', evs') \<Rightarrow> (r, s'', evs @ Sleep (delayOf i) # evs')))"

text \<open>
  Modelled from the spec: the reading the specification gives of the two parameters, "a
  fixed 1-second delay between attempts" and "the last error".
\<close>

definition FixedDelay :: "nat \<Rightarrow> nat \<Rightarrow> nat" where
  "FixedDelay delay i = delay"

definition LastError :: "error list \<Rightarrow> error" where
  "LastError errs = last errs"

text \<open>\<open>time.Second\<close>, in nanoseconds.\<close>

definition Second :: nat where
  "Second = 1000000000"

text \<open>The function handed to \<open>retry.Do\<close>: stop the bridge, run \<open>setup\<close>, log its error.\<close>

definition attempt :: "env \<Rightarrow> (Chat \<Rightarrow> string) \<Rightarrow> Connection
    \<Rightarrow> error option \<times> Connection \<times> event list" where
  "attempt e Identifier conn =
     (case conn_setup e Identifier conn of
        (None, conn', evs) \<Rightarrow> (None, conn', BridgeStop # evs)
      | (Some err, conn', evs) \<Rightarrow>
          (Some err, conn', BridgeStop # evs @ [Log (''err while setting up: '' @ err)]))"

text \<open>
  The closure \<open>welcome\<close>, here \<open>do_welcome\<close>; \<open>envs i\<close> is what the outside world answers
  during attempt \<open>i\<close>. \<open>retry.Delay(time.Second)\<close> sets the delay the library starts from:
  \<open>DelayType\<close> is how the library turns it into the sleep after each attempt.
\<close>

definition do_welcome :: "(nat \<Rightarrow> env) \<Rightarrow> (nat \<Rightarrow> nat \<Rightarrow> nat) \<Rightarrow> (error list \<Rightarrow> error)
    \<Rightarrow> (Chat \<Rightarrow> string) \<Rightarrow> (string \<Rightarrow> error option) \<Rightarrow> Connection
    \<Rightarrow> (bool \<times> error option) \<times> Connection \<times> event list" where
  "do_welcome envs DelayType errorOf Identifier w conn =
     (if welcomed conn \<or> nickname conn = [] then ((False, None), conn, [])
      else
        (case writeIRCNow w ('':whapp-irc 001 '' @ nickname conn @ '' Welcome to whapp-irc, ''
                              @ nickname conn @ ''.'') of
           (Some err, ev1) \<Rightarrow> ((False, Some err), conn, ev1)
         | (None, ev1) \<Rightarrow>
         (case writeIRCNow w ('':whapp-irc 002 '' @ nickname conn @ '' Enjoy the ride.'') of
           (Some err, ev2) \<Rightarrow> ((False, Some err), conn, ev1 @ ev2)
         | (None, ev2) \<Rightarrow>
         (case retry_Do (\<lambda>i. attempt (envs i) Identifier) 5 (DelayType Second) errorOf 0 []
                 (conn\<lparr>welcomed := True\<rparr>) of
           (Some err, conn', evs) \<Rightarrow> ((False, Some err), conn', ev1 @ ev2 @ evs)
         | (None, conn', evs) \<Rightarrow>
             ((True, None), conn', ev1 @ ev2 @ evs @ [CloseWelcomeCh])))))"

text \<open>
  The NICK branch of the command loop: \<open>Return\<close> leaves the loop, \<open>Continue\<close> waits for
  the next command.
\<close>

datatype loopStep = Continue | Return

definition handleNick :: "(nat \<Rightarrow> env) \<Rightarrow> (nat \<Rightarrow> nat \<Rightarrow> nat) \<Rightarrow> (error list \<Rightarrow> error)
    \<Rightarrow> (Chat \<Rightarrow> string) \<Rightarrow> (string \<Rightarrow> error option) \<Rightarrow> Connection
    \<Rightarrow> string \<Rightarrow> loopStep \<times> Connection \<times> event list" where
  "handleNick envs DelayType errorOf Identifier w conn param =
     (case do_welcome envs DelayType errorOf Identifier w (conn\<lparr>nickname := param\<rparr>) of
        ((b, Some err), conn', evs) \<Rightarrow>
          (Return, conn', evs @ [Status (''giving up trying to setup whapp bridge: '' @ err)])
      | ((b, None), conn', evs) \<Rightarrow> (Continue, conn', evs))"

text \<open>
  \<open>BindSocket\<close> from a NICK command to the end of catch-up. The command loop runs in a
  goroutine of its own and cancels the context when it is left (its deferred \<open>cancel\<close>).
  The routine of \<open>BindSocket\<close> meanwhile receives from \<open>welcomeCh\<close> (line 163), a bare
  receive that does not look at the context. The channel is closed in one place, by the
  closure \<open>welcome\<close> after a setup that succeeded, and the closure is called by the
  command loop alone. So the routine goes on once the command has closed the channel; it
  waits for another command while the loop is running; and it stays on the receive for
  good once the loop is left with the channel open. Then \<open>BindSocket\<close> does not return,
  and what it deferred is not run: \<open>cancel\<close>, \<open>conn.bridge.Stop\<close> and \<open>socket.Close\<close>, which
  run in this order when it does return. \<open>caps.WaitNegotiation\<close> is taken to return. After
  a catch-up without error the relay goroutines are started.
\<close>

datatype bindState = AwaitsWelcome | BlockedOnWelcomeCh | ReturnedErr error | RelayStarted

definition BindSocket_nick :: "(nat \<Rightarrow> env) \<Rightarrow> (nat \<Rightarrow> nat \<Rightarrow> nat) \<Rightarrow> (error list \<Rightarrow> error)
    \<Rightarrow> (Chat \<Rightarrow> string) \<Rightarrow> (string \<Rightarrow> error option) \<Rightarrow> fetcher \<Rightarrow> handler
    \<Rightarrow> (string \<Rightarrow> User \<Rightarrow> error option) \<Rightarrow> Connection \<Rightarrow> string
    \<Rightarrow> bindState \<times> Connection \<times> event list" where
  "BindSocket_nick envs DelayType errorOf Identifier w fetch handle store conn param =
     (case handleNick envs DelayType errorOf Identifier w conn param of
        (step, conn1, evs) \<Rightarrow>
          (let evs1 = evs @ (case step of Return \<Rightarrow> [CancelCtx] | Continue \<Rightarrow> []) in
           if CloseWelcomeCh \<in> set evs then
             (case catchup fetch handle store conn1 of
                (Some err, conn2, evs2) \<Rightarrow>
                  (ReturnedErr err, conn2, evs1 @ evs2 @ [CancelCtx, BridgeStop, SocketClose])
              | (None, conn2, evs2) \<Rightarrow> (RelayStarted, conn2, evs1 @ evs2))
           else if step = Return then (BlockedOnWelcomeCh, conn1, evs1)
           else (AwaitsWelcome, conn1, evs1)))"

text \<open>The events that close the welcome channel or the socket.\<close>

abbreviation (input) closes :: "event \<Rightarrow> bool" where
  "closes ev \<equiv> ev = CloseWelcomeCh \<or> ev = SocketClose"

section \<open>ircSafeString\<close>

text \<open>
  A Go string is read by \<open>unidecode.Unidecode\<close> and by the regular expression as a sequence
  of code points, so the text is a list of code points here. \<open>Unidecode\<close> belongs to a
  library and is the parameter \<open>Unidecode\<close>.

  \<open>unsafeRegex\<close> is \<open>(?i)[^a-z\d+]\<close>: one code point outside the class. Under the flag
  \<open>i\<close> the range \<open>a-z\<close> is closed under simple case folding before the class is negated,
  which adds \<open>A-Z\<close>, U+017F (long s) and U+212A (Kelvin sign); \<open>\d\<close> is \<open>0-9\<close>.
  \<open>ReplaceAllLiteralString\<close> with the empty replacement deletes every match.
\<close>

type_synonym rune = nat

definition isLower :: "rune \<Rightarrow> bool" where
  "isLower r = (97 \<le> r \<and> r \<le> 122)"

definition isUpper :: "rune \<Rightarrow> bool" where
  "isUpper r = (65 \<le> r \<and> r \<le> 90)"

definition isDigit :: "rune \<Rightarrow> bool" where
  "isDigit r = (48 \<le> r \<and> r \<le> 57)"

definition inClass :: "rune \<Rightarrow> bool" where
  "inClass r = (isLower r \<or> isUpper r \<or> r = 0x17F \<or> r = 0x212A \<or> isDigit r \<or> r = 43)"

definition unsafeRegex :: "rune \<Rightarrow> bool" where
  "unsafeRegex r = (\<not> inClass r)"

definition ircSafeString :: "(rune list \<Rightarrow> rune list) \<Rightarrow> rune list \<Rightarrow> rune list" where
  "ircSafeString Unidecode str = filter (\<lambda>r. \<not> unsafeRegex r) (Unidecode str)"

text \<open>The characters the result may hold: ASCII letters, decimal digits and \<open>+\<close>.\<close>

definition safeChar :: "rune \<Rightarrow> bool" where
  "safeChar r = (isLower r \<or> isUpper r \<or> isDigit r \<or> r = 43)"

section \<open>Sample inputs\<close>

text \<open>
  The scenario of the specification: nickname \<open>bob\<close>, one group chat \<open>c1\<close> whose current
  timestamp is 150, a stored watermark of 100 for it, the replay capability asserted, and
  two messages with the timestamps 120 and 140. They serve as concrete inputs below.
\<close>

definition ex_raw :: whappChat where
  "ex_raw = \<lparr> wID = ''c1'', wTimestamp = 150, wIsGroupChat = True, wDescription = None,
              wTitle = ''Family'' \<rparr>"

definition ex_chat :: Chat where
  "ex_chat = \<lparr> ID = ''c1'', Name = ''Family'', IsGroupChat = True, Participants = [],
               Joined = False, MessageIDs = [], rawChat = ex_raw \<rparr>"

definition ex_conn :: Connection where
  "ex_conn = \<lparr> Chats = [ex_chat], nickname = ''bob'', me = [], caps = [''whapp-irc/replay''],
               welcomed = True, localStorage = [], timestampMap = [(''c1'', 100)] \<rparr>"

definition ex_msg120 :: whappMessage where
  "ex_msg120 = \<lparr> msgID = ''m120'', Timestamp = 120 \<rparr>"

definition ex_msg140 :: whappMessage where
  "ex_msg140 = \<lparr> msgID = ''m140'', Timestamp = 140 \<rparr>"

text \<open>A handler that delivers every message, a store that saves, a socket that writes.\<close>

definition ex_handle :: handler where
  "ex_handle conn msg = (None, conn)"

definition ex_save :: "string \<Rightarrow> User \<Rightarrow> error option" where
  "ex_save nick user = None"

definition ex_write :: "string \<Rightarrow> error option" where
  "ex_write str = None"

definition ex_fetch :: fetcher where
  "ex_fetch chat since = Inr [ex_msg120, ex_msg140]"

definition ex_parts :: "whappChat \<Rightarrow> error + Participant list" where
  "ex_parts chat = Inr []"

text \<open>
  A second chat, a direct one; the connection with both chats; and what the platform
  reports for the chat \<open>c1\<close> later on: a new title, a new timestamp and one participant.
\<close>

definition ex_raw2 :: whappChat where
  "ex_raw2 = \<lparr> wID = ''c2'', wTimestamp = 90, wIsGroupChat = False, wDescription = None,
               wTitle = ''Alice'' \<rparr>"

definition ex_conn2 :: Connection where
  "ex_conn2 = ex_conn\<lparr> Chats := [ex_chat, newChat ex_raw2 []] \<rparr>"

definition ex_raw_later :: whappChat where
  "ex_raw_later = ex_raw\<lparr> wTimestamp := 200, wTitle := ''Family 2'' \<rparr>"

definition ex_parts_one :: "whappChat \<Rightarrow> error + Participant list" where
  "ex_parts_one chat = Inr [\<lparr> IsAdmin = False, IsMe = False, SafeName = ''alice'' \<rparr>]"

definition ex_parts_gone :: "whappChat \<Rightarrow> error + Participant list" where
  "ex_parts_gone chat = Inl ''chat is gone''"

text \<open>A transliteration that keeps ASCII and writes \<open>?\<close> for everything else.\<close>

definition ex_unidecode :: "rune list \<Rightarrow> rune list" where
  "ex_unidecode s = map (\<lambda>r. if r < 128 then r else 63) s"

text \<open>A fetch that gives the two messages newest first, and a handler that fails on the
  message of timestamp 120.\<close>

definition ex_fetch_unordered :: fetcher where
  "ex_fetch_unordered chat since = Inr [ex_msg140, ex_msg120]"

definition ex_handle_fail :: handler where
  "ex_handle_fail conn msg = (if Timestamp msg = 120 then (Some ''boom'', conn) else (None, conn))"

text \<open>The same connection without the replay capability, its chat reporting the
  timestamp 50, below the stored watermark.\<close>

definition ex_conn_stale :: Connection where
  "ex_conn_stale = ex_conn\<lparr> caps := [],
       Chats := [ex_chat\<lparr>rawChat := ex_raw\<lparr>wTimestamp := 50\<rparr>\<rparr>] \<rparr>"

text \<open>An identifier for a chat; a socket on which the MODE line cannot be written and the
  chat with an admin self participant that asks for one; a socket on which the
  end-of-names line cannot be written.\<close>

definition ex_ident :: "Chat \<Rightarrow> string" where
  "ex_ident chat = CHR ''#'' # Name chat"

definition ex_write_fail_mode :: "string \<Rightarrow> error option" where
  "ex_write_fail_mode str = (if take 15 str = '':whapp-irc MODE'' then Some ''broken pipe'' else None)"

definition ex_chat_admin :: Chat where
  "ex_chat_admin = ex_chat\<lparr> Participants :=
       [\<lparr> IsAdmin = True, IsMe = True, SafeName = ''bob'' \<rparr>,
        \<lparr> IsAdmin = True, IsMe = False, SafeName = ''alice'' \<rparr>] \<rparr>"

definition ex_write_fail_end :: "string \<Rightarrow> error option" where
  "ex_write_fail_end str = (if take 14 str = '':whapp-irc 366'' then Some ''broken pipe'' else None)"

text \<open>
  An outside world in which every call of \<open>Connection.setup\<close> succeeds, for a session that is
  logged in and a nickname without a persisted record; the same with a user store that
  cannot save; with a bridge that cannot start; and with a persisted record found.
\<close>

definition ex_env :: env where
  "ex_env = \<lparr> Start_res = None,
              GetItem_res = (\<lambda>nick. Inr None),
              Decode_res = (\<lambda>ob. Inl ''no record''),
              OpenResume_res = None,
              SetLocalStorage_res = (\<lambda>ls. None),
              Open_res = Inr Loggedin,
              GetLoginCode_res = Inl ''logged in'',
              Encode_res = (\<lambda>code. Inr code),
              AddBlob_res = (\<lambda>bytes. Inr ''http://host/qr.png''),
              RemoveFile_res = (\<lambda>file. None),
              status_res = (\<lambda>msg. None),
              WaitLogin_res = None,
              GetLocalStorage_res = ([(''token'', ''abc'')], None),
              SaveItem_res = ex_save,
              GetMe_res = (''bob@c.us'', None),
              GetAllChats_res = Inr [ex_raw],
              Participants_res = ex_parts \<rparr>"

definition ex_env_save_fails :: env where
  "ex_env_save_fails = ex_env\<lparr> SaveItem_res := (\<lambda>nick user. Some ''disk full'') \<rparr>"

definition ex_env_down :: env where
  "ex_env_down = ex_env\<lparr> Start_res := Some ''no browser'' \<rparr>"

definition ex_new_conn :: Connection where
  "ex_new_conn = MakeConnection\<lparr> nickname := ''bob'' \<rparr>"

definition ex_env_record :: env where
  "ex_env_record = ex_env\<lparr> GetItem_res := (\<lambda>nick. Inr (Some ''blob'')),
       Decode_res := (\<lambda>ob. Inr \<lparr>LocalStorage = [], LastReceivedReceipts = [(''c1'', 100)]\<rparr>) \<rparr>"

section \<open>Events of a run\<close>

lemma delivered_Nil [simp]: "delivered [] = []"
  by (simp add: delivered_def)

lemma delivered_append [simp]: "delivered (xs @ ys) = delivered xs @ delivered ys"
  by (simp add: delivered_def)

lemma delivered_Cons [simp]:
  "delivered (e # evs) = (case e of Delivered m \<Rightarrow> [m] | _ \<Rightarrow> []) @ delivered evs"
  by (simp add: delivered_def)

lemma written_Nil [simp]: "written [] = []"
  by (simp add: written_def)

lemma written_append [simp]: "written (xs @ ys) = written xs @ written ys"
  by (simp add: written_def)

lemma written_Cons [simp]:
  "written (e # evs) = (case e of Write str \<Rightarrow> [str] | _ \<Rightarrow> []) @ written evs"
  by (simp add: written_def)

section \<open>The chat list holds one chat for each identifier\<close>

lemma upsertChat_ids: "ID ` set (upsertChat cs chat) = insert (ID chat) (ID ` set cs)"
  by (induction cs) auto

lemma upsertChat_distinct: "distinct (map ID cs) \<Longrightarrow> distinct (map ID (upsertChat cs chat))"
proof (induction cs)
  case Nil
  then show ?case by simp
next
  case (Cons c cs)
  show ?case
  proof (cases "ID c = ID chat")
    case True
    with Cons.prems show ?thesis by simp
  next
    case False
    have "ID c \<notin> ID ` set (upsertChat cs chat)"
      using Cons.prems False by (simp add: upsertChat_ids)
    with Cons False show ?thesis by simp
  qed
qed

lemma upsertChat_replace:
  "i < length cs \<Longrightarrow> ID (cs ! i) = ID chat \<Longrightarrow> \<forall>j<i. ID (cs ! j) \<noteq> ID chat
     \<Longrightarrow> upsertChat cs chat = cs[i := chat]"
proof (induction cs arbitrary: i)
  case Nil
  then show ?case by simp
next
  case (Cons c cs)
  show ?case
  proof (cases i)
    case 0
    with Cons.prems show ?thesis by simp
  next
    case (Suc k)
    from Cons.prems Suc have c: "ID c \<noteq> ID chat" by auto
    from Cons.prems Suc have "\<forall>j<k. ID (cs ! j) \<noteq> ID chat" by auto
    with Cons.IH [of k] Cons.prems Suc have "upsertChat cs chat = cs[k := chat]" by simp
    with c Suc show ?thesis by simp
  qed
qed

lemma upsertChat_append: "ID chat \<notin> ID ` set cs \<Longrightarrow> upsertChat cs chat = cs @ [chat]"
  by (induction cs) auto

lemma distinct_first_index:
  assumes "distinct (map f cs)" and "i < length cs" and "f (cs ! i) = k"
  shows "\<forall>j<i. f (cs ! j) \<noteq> k"
proof (intro allI impI)
  fix j assume ji: "j < i"
  then have j: "j < length (map f cs)" and i: "i < length (map f cs)"
    using assms(2) by auto
  have "(map f cs ! j = map f cs ! i) = (j = i)"
    using assms(1) j i by (rule nth_eq_iff_index_eq)
  then show "f (cs ! j) \<noteq> k"
    using assms(2,3) ji by simp
qed

lemma addChat_distinct:
  "distinct (map ID (Chats conn)) \<Longrightarrow> distinct (map ID (Chats (fst (snd (addChat parts Identifier conn raw)))))"
  by (simp add: addChat_def upsertChat_distinct split: sum.splits)

lemma addChats_distinct:
  "distinct (map ID (Chats conn)) \<Longrightarrow> distinct (map ID (Chats (addChats parts Identifier conn raws)))"
  by (induction raws arbitrary: conn) (simp_all add: addChat_distinct)

lemma addChat_Inr:
  "parts raw = Inr ps \<Longrightarrow>
     addChat parts Identifier conn raw
       = (Inr (newChat raw ps), conn\<lparr>Chats := upsertChat (Chats conn) (newChat raw ps)\<rparr>,
          [Log (addChatLog Identifier (newChat raw ps))])"
  by (simp add: addChat_def convertChat_def)

text \<open>
  C6. Whatever sequence of \<open>addChat\<close> calls is run on a new connection, no two chats of
  the list have the same ID. A call whose conversion fails returns that error and leaves
  the connection as it was. A call whose conversion succeeds returns the converted chat
  and changes the chat list alone: the first entry that has the chat's ID is overwritten
  by the converted chat at its index, the length staying what it was, and with no such
  entry the chat is appended at the end. On a list without duplicates the result has no
  duplicates, and the entry overwritten is the one entry with that ID.
\<close>

theorem addChat_one_chat_per_id:
  "distinct (map ID (Chats (addChats parts Identifier MakeConnection raws)))
   \<and> (parts raw = Inl err \<longrightarrow> addChat parts Identifier conn raw = (Inl err, conn, []))
   \<and> (parts raw = Inr ps \<longrightarrow>
        (\<exists>cs'. addChat parts Identifier conn raw
                 = (Inr (newChat raw ps), conn\<lparr>Chats := cs'\<rparr>,
                    [Log (addChatLog Identifier (newChat raw ps))])
             \<and> (\<forall>i<length (Chats conn).
                    ID (Chats conn ! i) = wID raw \<and> (\<forall>j<i. ID (Chats conn ! j) \<noteq> wID raw) \<longrightarrow>
                    cs' = (Chats conn)[i := newChat raw ps] \<and> length cs' = length (Chats conn)
                  \<and> cs' ! i = newChat raw ps)
             \<and> (wID raw \<notin> ID ` set (Chats conn) \<longrightarrow> cs' = Chats conn @ [newChat raw ps])
             \<and> (distinct (map ID (Chats conn)) \<longrightarrow>
                  distinct (map ID cs')
                \<and> (\<forall>i<length (Chats conn). ID (Chats conn ! i) = wID raw \<longrightarrow>
                       cs' = (Chats conn)[i := newChat raw ps]
                     \<and> length cs' = length (Chats conn)))))"
proof (intro conjI impI)
  show "distinct (map ID (Chats (addChats parts Identifier MakeConnection raws)))"
    by (rule addChats_distinct) (simp add: MakeConnection_def)
next
  assume "parts raw = Inl err"
  then show "addChat parts Identifier conn raw = (Inl err, conn, [])"
    by (simp add: addChat_def convertChat_def)
next
  assume ok: "parts raw = Inr ps"
  let ?chat = "newChat raw ps"
  let ?cs' = "upsertChat (Chats conn) ?chat"
  have id: "ID ?chat = wID raw" by (simp add: newChat_def)
  have first: "\<forall>i<length (Chats conn).
      ID (Chats conn ! i) = wID raw \<and> (\<forall>j<i. ID (Chats conn ! j) \<noteq> wID raw) \<longrightarrow>
      ?cs' = (Chats conn)[i := ?chat] \<and> length ?cs' = length (Chats conn) \<and> ?cs' ! i = ?chat"
    using id by (simp add: upsertChat_replace)
  have app: "wID raw \<notin> ID ` set (Chats conn) \<longrightarrow> ?cs' = Chats conn @ [?chat]"
    using id by (simp add: upsertChat_append)
  have dist: "distinct (map ID (Chats conn)) \<longrightarrow>
      distinct (map ID ?cs')
    \<and> (\<forall>i<length (Chats conn). ID (Chats conn ! i) = wID raw \<longrightarrow>
           ?cs' = (Chats conn)[i := ?chat] \<and> length ?cs' = length (Chats conn))"
    using id by (simp add: upsertChat_distinct upsertChat_replace distinct_first_index)
  from addChat_Inr [where parts = parts and raw = raw, OF ok, of Identifier conn] first app dist
  show "\<exists>cs'. addChat parts Identifier conn raw
                 = (Inr (newChat raw ps), conn\<lparr>Chats := cs'\<rparr>,
                    [Log (addChatLog Identifier (newChat raw ps))])
             \<and> (\<forall>i<length (Chats conn).
                    ID (Chats conn ! i) = wID raw \<and> (\<forall>j<i. ID (Chats conn ! j) \<noteq> wID raw) \<longrightarrow>
                    cs' = (Chats conn)[i := newChat raw ps] \<and> length cs' = length (Chats conn)
                  \<and> cs' ! i = newChat raw ps)
             \<and> (wID raw \<notin> ID ` set (Chats conn) \<longrightarrow> cs' = Chats conn @ [newChat raw ps])
             \<and> (distinct (map ID (Chats conn)) \<longrightarrow>
                  distinct (map ID cs')
                \<and> (\<forall>i<length (Chats conn). ID (Chats conn ! i) = wID raw \<longrightarrow>
                       cs' = (Chats conn)[i := newChat raw ps]
                     \<and> length cs' = length (Chats conn)))"
    by (intro exI [of _ ?cs']) blast
qed

text \<open>
  On the connection with the chats \<open>c1\<close> and \<open>c2\<close>: the later report of \<open>c1\<close> takes the
  place of the first entry and is not the chat that was there; a later report of \<open>c2\<close>
  takes the place of the second; a chat \<open>c3\<close> is appended; a failed conversion changes
  nothing.
\<close>

theorem addChat_one_chat_per_id_witness:
  "addChat ex_parts_one ex_ident ex_conn2 ex_raw_later
     = (Inr (newChat ex_raw_later [\<lparr> IsAdmin = False, IsMe = False, SafeName = ''alice'' \<rparr>]),
        ex_conn2\<lparr>Chats := [newChat ex_raw_later
                                [\<lparr> IsAdmin = False, IsMe = False, SafeName = ''alice'' \<rparr>],
                              newChat ex_raw2 []]\<rparr>,
        [Log ''#Family 2                        1 participants''])
   \<and> newChat ex_raw_later [\<lparr> IsAdmin = False, IsMe = False, SafeName = ''alice'' \<rparr>] \<noteq> ex_chat
   \<and> Chats (fst (snd (addChat ex_parts ex_ident ex_conn2 (ex_raw2\<lparr>wTitle := ''Alice B''\<rparr>))))
       = [ex_chat, newChat (ex_raw2\<lparr>wTitle := ''Alice B''\<rparr>) []]
   \<and> Chats (fst (snd (addChat ex_parts ex_ident ex_conn2 (ex_raw2\<lparr>wID := ''c3''\<rparr>))))
       = [ex_chat, newChat ex_raw2 [], newChat (ex_raw2\<lparr>wID := ''c3''\<rparr>) []]
   \<and> addChat ex_parts_gone ex_ident ex_conn2 ex_raw_later = (Inl ''chat is gone'', ex_conn2, [])"
proof -
  let ?alice = "[\<lparr> IsAdmin = False, IsMe = False, SafeName = ''alice'' \<rparr>]"
  let ?c1 = "newChat ex_raw_later ?alice"
  let ?c2 = "newChat (ex_raw2\<lparr>wTitle := ''Alice B''\<rparr>) []"
  let ?c3 = "newChat (ex_raw2\<lparr>wID := ''c3''\<rparr>) []"
  have l: "Chats ex_conn2 = [ex_chat, newChat ex_raw2 []]"
    by (simp add: ex_conn2_def)
  have ids: "ID ex_chat = ''c1''" "ID (newChat ex_raw2 []) = ''c2''" "wID ex_raw_later = ''c1''"
    "wID (ex_raw2\<lparr>wTitle := ''Alice B''\<rparr>) = ''c2''" "wID (ex_raw2\<lparr>wID := ''c3''\<rparr>) = ''c3''"
    by (simp_all add: ex_chat_def ex_raw_later_def ex_raw_def newChat_def ex_raw2_def)
  have lg: "addChatLog ex_ident ?c1 = ''#Family 2                        1 participants''"
    by (simp add: addChatLog_def newChat_def ex_raw_later_def ex_raw_def ex_ident_def padRight_def
        padLeft_def showNat.simps eval_nat_numeral)
  have n: "?c1 \<noteq> ex_chat"
    by (simp add: newChat_def ex_chat_def ex_raw_later_def ex_raw_def)
  have p1: "ex_parts_one ex_raw_later = Inr ?alice"
    by (simp add: ex_parts_one_def)
  from addChat_one_chat_per_id [where parts = ex_parts_one and Identifier = ex_ident
      and conn = ex_conn2 and raw = ex_raw_later and ps = ?alice] p1
  obtain cs1 where e1: "addChat ex_parts_one ex_ident ex_conn2 ex_raw_later
        = (Inr ?c1, ex_conn2\<lparr>Chats := cs1\<rparr>, [Log (addChatLog ex_ident ?c1)])"
    and f1: "\<forall>i<length (Chats ex_conn2).
        ID (Chats ex_conn2 ! i) = wID ex_raw_later
          \<and> (\<forall>j<i. ID (Chats ex_conn2 ! j) \<noteq> wID ex_raw_later) \<longrightarrow>
        cs1 = (Chats ex_conn2)[i := ?c1] \<and> length cs1 = length (Chats ex_conn2) \<and> cs1 ! i = ?c1"
    by blast
  from f1 [rule_format, of 0] have "cs1 = [?c1, newChat ex_raw2 []]"
    by (simp add: l ids)
  with e1 lg have 1: "addChat ex_parts_one ex_ident ex_conn2 ex_raw_later
     = (Inr ?c1, ex_conn2\<lparr>Chats := [?c1, newChat ex_raw2 []]\<rparr>,
        [Log ''#Family 2                        1 participants''])"
    by simp
  have p2: "ex_parts (ex_raw2\<lparr>wTitle := ''Alice B''\<rparr>) = Inr []"
    and p3: "ex_parts (ex_raw2\<lparr>wID := ''c3''\<rparr>) = Inr []"
    by (simp_all add: ex_parts_def)
  from addChat_one_chat_per_id [where parts = ex_parts and Identifier = ex_ident
      and conn = ex_conn2 and raw = "ex_raw2\<lparr>wTitle := ''Alice B''\<rparr>" and ps = "[]"] p2
  obtain cs2 where e2: "addChat ex_parts ex_ident ex_conn2 (ex_raw2\<lparr>wTitle := ''Alice B''\<rparr>)
        = (Inr ?c2, ex_conn2\<lparr>Chats := cs2\<rparr>, [Log (addChatLog ex_ident ?c2)])"
    and f2: "\<forall>i<length (Chats ex_conn2).
        ID (Chats ex_conn2 ! i) = wID (ex_raw2\<lparr>wTitle := ''Alice B''\<rparr>)
          \<and> (\<forall>j<i. ID (Chats ex_conn2 ! j) \<noteq> wID (ex_raw2\<lparr>wTitle := ''Alice B''\<rparr>)) \<longrightarrow>
        cs2 = (Chats ex_conn2)[i := ?c2] \<and> length cs2 = length (Chats ex_conn2) \<and> cs2 ! i = ?c2"
    by blast
  from f2 [rule_format, of 1] have "cs2 = [ex_chat, ?c2]"
    by (simp add: l ids)
  with e2 have 2: "Chats (fst (snd (addChat ex_parts ex_ident ex_conn2
      (ex_raw2\<lparr>wTitle := ''Alice B''\<rparr>)))) = [ex_chat, ?c2]"
    by simp
  from addChat_one_chat_per_id [where parts = ex_parts and Identifier = ex_ident
      and conn = ex_conn2 and raw = "ex_raw2\<lparr>wID := ''c3''\<rparr>" and ps = "[]"] p3
  obtain cs3 where e3: "addChat ex_parts ex_ident ex_conn2 (ex_raw2\<lparr>wID := ''c3''\<rparr>)
        = (Inr ?c3, ex_conn2\<lparr>Chats := cs3\<rparr>, [Log (addChatLog ex_ident ?c3)])"
    and f3: "wID (ex_raw2\<lparr>wID := ''c3''\<rparr>) \<notin> ID ` set (Chats ex_conn2) \<longrightarrow>
        cs3 = Chats ex_conn2 @ [?c3]"
    by blast
  from f3 have "cs3 = [ex_chat, newChat ex_raw2 [], ?c3]"
    by (simp add: l ids)
  with e3 have 3: "Chats (fst (snd (addChat ex_parts ex_ident ex_conn2 (ex_raw2\<lparr>wID := ''c3''\<rparr>))))
       = [ex_chat, newChat ex_raw2 [], ?c3]"
    by simp
  from addChat_one_chat_per_id [where parts = ex_parts_gone and conn = ex_conn2
      and raw = ex_raw_later and err = "''chat is gone''" and Identifier = ex_ident]
  have 4: "addChat ex_parts_gone ex_ident ex_conn2 ex_raw_later = (Inl ''chat is gone'', ex_conn2, [])"
    by (simp add: ex_parts_gone_def)
  from 1 n 2 3 4 show ?thesis by blast
qed

section \<open>Catch-up without replay\<close>

lemma map_of_tm_Set: "map_of (tm_Set tm k v) = (map_of tm)(k \<mapsto> v)"
  by (induction tm) auto

lemma tm_Get_Some: "tm_Get tm k = (v, True) \<longleftrightarrow> map_of tm k = Some v"
  by (simp add: tm_Get_def split: option.splits)

lemma delivered_save: "delivered (snd (saveDatabaseEntry S conn)) = []"
  by (simp add: saveDatabaseEntry_def Let_def split: option.splits)

lemma catchupChat_noreplay:
  assumes "empty' \<or> \<not> HasCapability conn ''whapp-irc/replay''"
  shows "catchupChat fetch handle S empty' c conn =
           (None, conn\<lparr>timestampMap := reset (timestampMap conn) c\<rparr>,
            snd (saveDatabaseEntry S (conn\<lparr>timestampMap := reset (timestampMap conn) c\<rparr>)))"
  using assms by (simp add: catchupChat_def Let_def split: prod.splits)

lemma HasCapability_timestampMap [simp]:
  "HasCapability (conn\<lparr>timestampMap := tm\<rparr>) name = HasCapability conn name"
  by (simp add: HasCapability_def)

lemma catchupChats_noreplay_state:
  assumes "empty' \<or> \<not> HasCapability conn ''whapp-irc/replay''"
  shows "fst (catchupChats fetch handle S empty' cs conn) = None
       \<and> fst (snd (catchupChats fetch handle S empty' cs conn))
           = conn\<lparr>timestampMap := foldl reset (timestampMap conn) cs\<rparr>"
  using assms
proof (induction cs arbitrary: conn)
  case Nil
  then show ?case by simp
next
  case (Cons c cs)
  let ?conn' = "conn\<lparr>timestampMap := reset (timestampMap conn) c\<rparr>"
  have "empty' \<or> \<not> HasCapability ?conn' ''whapp-irc/replay''"
    using Cons.prems by simp
  from Cons.IH [OF this] show ?case
    by (auto simp: catchupChat_noreplay [OF Cons.prems] split: prod.splits)
qed

lemma catchupChats_noreplay_delivered:
  assumes "empty' \<or> \<not> HasCapability conn ''whapp-irc/replay''"
  shows "delivered (snd (snd (catchupChats fetch handle S empty' cs conn))) = []"
  using assms
proof (induction cs arbitrary: conn)
  case Nil
  then show ?case by simp
next
  case (Cons c cs)
  let ?conn' = "conn\<lparr>timestampMap := reset (timestampMap conn) c\<rparr>"
  have "empty' \<or> \<not> HasCapability ?conn' ''whapp-irc/replay''"
    using Cons.prems by simp
  from Cons.IH [OF this] show ?case
    by (auto simp: catchupChat_noreplay [OF Cons.prems] delivered_save split: prod.splits)
qed

lemma save_snapshot:
  "SaveItem (nickname conn) \<lparr>LocalStorage = localStorage conn, LastReceivedReceipts = timestampMap conn\<rparr>
     \<in> set (snd (saveDatabaseEntry S conn))"
  by (simp add: saveDatabaseEntry_def Let_def tm_GetCopy_def)

lemma catchupChats_noreplay_saved:
  assumes "empty' \<or> \<not> HasCapability conn ''whapp-irc/replay''" and "c \<in> set cs"
  shows "\<exists>u. SaveItem (nickname conn) u \<in> set (snd (snd (catchupChats fetch handle S empty' cs conn)))
           \<and> map_of (LastReceivedReceipts u) (ID c) = Some (wTimestamp (rawChat c))"
  using assms
proof (induction cs arbitrary: conn)
  case Nil
  then show ?case by simp
next
  case (Cons d cs)
  let ?conn' = "conn\<lparr>timestampMap := reset (timestampMap conn) d\<rparr>"
  have nr: "empty' \<or> \<not> HasCapability ?conn' ''whapp-irc/replay''"
    using Cons.prems by simp
  have unfold: "snd (snd (catchupChats fetch handle S empty' (d # cs) conn))
      = snd (saveDatabaseEntry S ?conn') @ snd (snd (catchupChats fetch handle S empty' cs ?conn'))"
    by (auto simp: catchupChat_noreplay [OF Cons.prems(1)] split: prod.splits)
  show ?case
  proof (cases "c = d")
    case True
    let ?u = "\<lparr>LocalStorage = localStorage ?conn', LastReceivedReceipts = timestampMap ?conn'\<rparr>"
    have "SaveItem (nickname ?conn') ?u \<in> set (snd (saveDatabaseEntry S ?conn'))"
      by (rule save_snapshot)
    moreover have "map_of (LastReceivedReceipts ?u) (ID c) = Some (wTimestamp (rawChat c))"
      using True by (simp add: map_of_tm_Set)
    ultimately show ?thesis
      unfolding unfold by (intro exI [of _ ?u]) simp
  next
    case False
    with Cons.prems have "c \<in> set cs" by simp
    from Cons.IH [OF nr this] obtain u where
      "SaveItem (nickname ?conn') u \<in> set (snd (snd (catchupChats fetch handle S empty' cs ?conn')))"
      "map_of (LastReceivedReceipts u) (ID c) = Some (wTimestamp (rawChat c))"
      by blast
    then show ?thesis
      unfolding unfold by (intro exI [of _ u]) simp
  qed
qed

lemma foldl_reset_other:
  "k \<notin> ID ` set cs \<Longrightarrow> map_of (foldl reset tm cs) k = map_of tm k"
  by (induction cs arbitrary: tm) (auto simp: map_of_tm_Set)

lemma foldl_reset_distinct:
  "distinct (map ID cs) \<Longrightarrow> c \<in> set cs
     \<Longrightarrow> map_of (foldl reset tm cs) (ID c) = Some (wTimestamp (rawChat c))"
proof (induction cs arbitrary: tm)
  case Nil
  then show ?case by simp
next
  case (Cons d cs)
  show ?case
  proof (cases "c = d")
    case True
    with Cons.prems have "ID c \<notin> ID ` set cs" by auto
    then show ?thesis using True by (simp add: foldl_reset_other map_of_tm_Set)
  next
    case False
    with Cons show ?thesis by simp
  qed
qed

text \<open>
  C1. When the timestamp map is empty before the loop, or the client did not assert
  \<open>whapp-irc/replay\<close>, catch-up returns no error and delivers no message; for every chat of
  the list a record is saved whose snapshot holds the chat's current timestamp as its
  watermark, and, the chat list having one chat for each ID, the map catch-up leaves holds
  that timestamp for every chat.
\<close>

theorem catchup_no_replay_resets:
  assumes "tm_Length (timestampMap conn) = 0 \<or> \<not> HasCapability conn ''whapp-irc/replay''"
  shows "case catchup fetch handle S conn of (r, conn', evs) \<Rightarrow>
           r = None \<and> delivered evs = []
         \<and> (\<forall>c\<in>set (Chats conn). \<exists>u. SaveItem (nickname conn) u \<in> set evs
               \<and> tm_Get (LastReceivedReceipts u) (ID c) = (wTimestamp (rawChat c), True))
         \<and> (distinct (map ID (Chats conn)) \<longrightarrow>
              (\<forall>c\<in>set (Chats conn).
                 tm_Get (timestampMap conn') (ID c) = (wTimestamp (rawChat c), True)))"
proof -
  let ?e = "tm_Length (timestampMap conn) = 0"
  let ?run = "catchupChats fetch handle S ?e (Chats conn) conn"
  obtain r conn' evs where run: "?run = (r, conn', evs)"
    by (cases ?run) auto
  from catchupChats_noreplay_state [OF assms, of fetch handle S "Chats conn"] run
  have r: "r = None" and c: "conn' = conn\<lparr>timestampMap := foldl reset (timestampMap conn) (Chats conn)\<rparr>"
    by simp_all
  from catchupChats_noreplay_delivered [OF assms, of fetch handle S "Chats conn"] run
  have d: "delivered evs = []" by simp
  have s: "\<forall>c\<in>set (Chats conn). \<exists>u. SaveItem (nickname conn) u \<in> set evs
               \<and> tm_Get (LastReceivedReceipts u) (ID c) = (wTimestamp (rawChat c), True)"
    using catchupChats_noreplay_saved [OF assms, of _ "Chats conn" fetch handle S] run
    by (simp add: tm_Get_Some)
  have f: "distinct (map ID (Chats conn)) \<longrightarrow>
              (\<forall>c\<in>set (Chats conn).
                 tm_Get (timestampMap conn') (ID c) = (wTimestamp (rawChat c), True))"
    using c by (simp add: tm_Get_Some foldl_reset_distinct)
  from r d s f show ?thesis
    by (simp add: catchup_def Let_def run)
qed


theorem catchup_no_replay_resets_witness:
  "\<not> HasCapability (ex_conn\<lparr>caps := []\<rparr>) ''whapp-irc/replay''
   \<and> distinct (map ID (Chats (ex_conn\<lparr>caps := []\<rparr>)))
   \<and> ex_chat \<in> set (Chats (ex_conn\<lparr>caps := []\<rparr>))
   \<and> (case catchup ex_fetch ex_handle ex_save (ex_conn\<lparr>caps := []\<rparr>) of
         (r, conn', evs) \<Rightarrow>
           r = None \<and> delivered evs = [] \<and> tm_Get (timestampMap conn') ''c1'' = (150, True))"
  using catchup_no_replay_resets [of "ex_conn\<lparr>caps := []\<rparr>" ex_fetch ex_handle ex_save]
  by (simp add: ex_conn_def ex_chat_def ex_raw_def HasCapability_def split: prod.splits)

section \<open>Which messages catch-up replays, and in which order\<close>

lemma replayMessages_prefix:
  "prefix (delivered (snd (snd (replayMessages handle prev msgs conn))))
          (filter (\<lambda>m. \<not> Timestamp m \<le>s prev) msgs)"
proof (induction msgs arbitrary: conn)
  case Nil
  then show ?case by simp
next
  case (Cons msg rest)
  show ?case
  proof (cases "Timestamp msg \<le>s prev")
    case True
    with Cons.IH [of conn] show ?thesis by simp
  next
    case False
    obtain r conn' where h: "handle conn msg = (r, conn')" by (cases "handle conn msg")
    show ?thesis
    proof (cases r)
      case None
      with False h Cons.IH [of conn'] show ?thesis
        by (simp add: case_prod_beta)
    next
      case (Some err)
      with False h show ?thesis by simp
    qed
  qed
qed

lemma prefix_sorted_wrt: "prefix xs ys \<Longrightarrow> sorted_wrt P ys \<Longrightarrow> sorted_wrt P xs"
  by (auto simp: prefix_def sorted_wrt_append)

lemma replayMessages_delivered:
  defines "d \<equiv> \<lambda>handle prev msgs conn. delivered (snd (snd (replayMessages handle prev msgs conn)))"
  shows "(\<forall>m\<in>set (d handle prev msgs conn). prev <s Timestamp m)
       \<and> subseq (d handle prev msgs conn) msgs
       \<and> (sorted_wrt ts_le msgs \<longrightarrow> sorted_wrt ts_le (d handle prev msgs conn))"
proof -
  let ?f = "filter (\<lambda>m. \<not> Timestamp m \<le>s prev) msgs"
  have p: "prefix (d handle prev msgs conn) ?f"
    unfolding d_def by (rule replayMessages_prefix)
  then have "set (d handle prev msgs conn) \<subseteq> set ?f"
    by (rule set_mono_prefix)
  then have a: "\<forall>m\<in>set (d handle prev msgs conn). prev <s Timestamp m"
    by (auto simp: signed.not_le)
  have "subseq (d handle prev msgs conn) ?f"
    using p by (rule prefix_imp_subseq)
  then have b: "subseq (d handle prev msgs conn) msgs"
    by (rule subseq_order.order_trans) simp
  have c: "sorted_wrt ts_le msgs \<longrightarrow> sorted_wrt ts_le (d handle prev msgs conn)"
    using p by (auto intro: prefix_sorted_wrt sorted_wrt_filter)
  from a b c show ?thesis by blast
qed

lemma catchupChat_delivered:
  "delivered (snd (snd (catchupChat fetch handle S empty' c conn))) =
     (if empty' \<or> \<not> HasCapability conn ''whapp-irc/replay'' then []
      else if wTimestamp (rawChat c) \<le>s fst (tm_Get (timestampMap conn) (ID c)) then []
      else case fetch (rawChat c) (case map_of (timestampMap conn) (ID c) of
                                     None \<Rightarrow> MinInt64 | Some w \<Rightarrow> w) of
             Inl err \<Rightarrow> []
           | Inr msgs \<Rightarrow>
               delivered (snd (snd (replayMessages handle
                  (case map_of (timestampMap conn) (ID c) of None \<Rightarrow> MinInt64 | Some w \<Rightarrow> w)
                  msgs conn))))"
  by (cases "map_of (timestampMap conn) (ID c)")
    (simp_all add: catchupChat_def tm_Get_def Let_def case_prod_beta delivered_save
      split: sum.splits)

text \<open>
  C2, as the code has it. In the round of catch-up for a chat, every message delivered has
  a timestamp strictly above the watermark the map held for that chat when the round
  began, and the messages delivered are a subsequence, in the order fetched, of what the
  fetch returned: the loop does not sort. So the delivered sequence is non-decreasing in
  timestamp whenever the fetched list is.
\<close>

theorem catchupChat_delivers_after_watermark:
  "case catchupChat fetch handle S empty' c conn of (r, conn', evs) \<Rightarrow>
     (\<forall>m\<in>set (delivered evs). \<forall>w. tm_Get (timestampMap conn) (ID c) = (w, True) \<longrightarrow> w <s Timestamp m)
   \<and> (\<forall>msgs. fetch (rawChat c) (case map_of (timestampMap conn) (ID c) of
                                    None \<Rightarrow> MinInt64 | Some w \<Rightarrow> w) = Inr msgs \<longrightarrow>
          subseq (delivered evs) msgs
        \<and> (sorted_wrt ts_le msgs \<longrightarrow> sorted_wrt ts_le (delivered evs)))"
proof -
  let ?since = "case map_of (timestampMap conn) (ID c) of None \<Rightarrow> MinInt64 | Some w \<Rightarrow> w"
  let ?d = "delivered (snd (snd (catchupChat fetch handle S empty' c conn)))"
  have a: "\<forall>m\<in>set ?d. \<forall>w. tm_Get (timestampMap conn) (ID c) = (w, True) \<longrightarrow> w <s Timestamp m"
  proof (intro ballI allI impI)
    fix m w
    assume m: "m \<in> set ?d" and w: "tm_Get (timestampMap conn) (ID c) = (w, True)"
    from w have since: "?since = w"
      by (simp add: tm_Get_def split: option.splits)
    from m obtain msgs where
      "m \<in> set (delivered (snd (snd (replayMessages handle ?since msgs conn))))"
      unfolding catchupChat_delivered by (auto split: if_splits sum.splits)
    with replayMessages_delivered [of handle ?since msgs conn] since
    show "w <s Timestamp m" by auto
  qed
  have b: "\<forall>msgs. fetch (rawChat c) ?since = Inr msgs \<longrightarrow>
          subseq ?d msgs \<and> (sorted_wrt ts_le msgs \<longrightarrow> sorted_wrt ts_le ?d)"
  proof (intro allI impI)
    fix msgs
    assume f: "fetch (rawChat c) ?since = Inr msgs"
    then have "?d = [] \<or> ?d = delivered (snd (snd (replayMessages handle ?since msgs conn)))"
      unfolding catchupChat_delivered by simp
    with replayMessages_delivered [of handle ?since msgs conn]
    show "subseq ?d msgs \<and> (sorted_wrt ts_le msgs \<longrightarrow> sorted_wrt ts_le ?d)"
      by auto
  qed
  from a b show ?thesis
    by (simp add: case_prod_beta)
qed

theorem catchupChat_delivers_after_watermark_witness:
  "delivered (snd (snd (catchupChat ex_fetch ex_handle ex_save False ex_chat ex_conn)))
     = [ex_msg120, ex_msg140]
   \<and> tm_Get (timestampMap ex_conn) (ID ex_chat) = (100, True)
   \<and> 100 <s Timestamp ex_msg120 \<and> 100 <s Timestamp ex_msg140
   \<and> sorted_wrt ts_le [ex_msg120, ex_msg140]"
  using catchupChat_delivers_after_watermark [where fetch = ex_fetch and handle = ex_handle
      and S = ex_save and empty' = False and c = ex_chat and conn = ex_conn]
  by (simp add: catchupChat_def tm_Get_def ex_conn_def ex_chat_def ex_raw_def HasCapability_def
      ex_fetch_def ex_handle_def ex_msg120_def ex_msg140_def word_sle_eq word_sless_alt)

text \<open>A fetch that returns the message of timestamp 140 before that of 120 has both
  delivered in that order.\<close>

theorem catchup_unordered_fetch_counterexample:
  "delivered (snd (snd (catchup ex_fetch_unordered ex_handle ex_save ex_conn)))
     = [ex_msg140, ex_msg120]
   \<and> \<not> Timestamp ex_msg140 \<le>s Timestamp ex_msg120"
  by (simp add: catchup_def catchupChat_def tm_Get_def tm_Length_def ex_conn_def ex_chat_def ex_raw_def
      HasCapability_def ex_fetch_unordered_def ex_handle_def ex_msg120_def ex_msg140_def
      word_sle_eq word_sless_alt)

section \<open>A message whose handling fails\<close>

text \<open>
  C3, as the code has it. In the live relay a future that resolved to an error, or a
  message whose handler fails, is logged and the loop goes on with the next input. In
  catch-up the failure of a handler is logged and returned: the loop over the messages
  ends there, the loop over the chats ends with it, and catch-up returns that error.
\<close>

theorem message_failure_live_and_catchup:
  "liveRelay handle (MsgFut (Inl err) # rest) conn
     = (fst (liveRelay handle rest conn),
        Log (''error handling new whapp message: '' @ err) # snd (liveRelay handle rest conn))
   \<and> (handle conn msg = (Some err, conn') \<longrightarrow>
        liveRelay handle (MsgFut (Inr msg) # rest) conn
          = (fst (liveRelay handle rest conn'),
             Log (''error handling new whapp message: '' @ err) # snd (liveRelay handle rest conn'))
      \<and> (\<not> Timestamp msg \<le>s prev \<longrightarrow>
           replayMessages handle prev (msg # rest') conn
             = (Some err, conn', [Log (''error handling older whapp message: '' @ err)])))
   \<and> (catchupChat fetch handle S empty' c conn = (Some err, conn', evs) \<longrightarrow>
        catchupChats fetch handle S empty' (c # cs) conn = (Some err, conn', evs))
   \<and> (catchupChats fetch handle S (tm_Length (timestampMap conn) = 0) (Chats conn) conn
          = (Some err, conn', evs) \<longrightarrow>
        catchup fetch handle S conn = (Some err, conn', evs))"
  by (simp add: case_prod_beta catchup_def)

theorem message_failure_live_and_catchup_witness:
  "ex_handle_fail ex_conn ex_msg120 = (Some ''boom'', ex_conn)
   \<and> liveRelay ex_handle_fail [MsgFut (Inr ex_msg120), MsgFut (Inr ex_msg140)] ex_conn
       = (ex_conn, [Log ''error handling new whapp message: boom'', Delivered ex_msg140])
   \<and> liveRelay ex_handle_fail [MsgFut (Inl ''timeout''), MsgFut (Inr ex_msg140)] ex_conn
       = (ex_conn, [Log ''error handling new whapp message: timeout'', Delivered ex_msg140])
   \<and> \<not> Timestamp ex_msg120 \<le>s 100
   \<and> replayMessages ex_handle_fail 100 [ex_msg120, ex_msg140] ex_conn
       = (Some ''boom'', ex_conn, [Log ''error handling older whapp message: boom''])
   \<and> catchupChats ex_fetch ex_handle_fail ex_save False [ex_chat, ex_chat] ex_conn
       = (Some ''boom'', ex_conn,
          [Fetch ''c1'' 100, Log ''error handling older whapp message: boom''])
   \<and> catchup ex_fetch ex_handle_fail ex_save ex_conn
       = (Some ''boom'', ex_conn,
          [Fetch ''c1'' 100, Log ''error handling older whapp message: boom''])"
proof -
  have h: "ex_handle_fail ex_conn ex_msg120 = (Some ''boom'', ex_conn)"
    by (simp add: ex_handle_fail_def ex_msg120_def)
  have t: "\<not> Timestamp ex_msg120 \<le>s 100"
    by (simp add: ex_msg120_def word_sle_eq)
  have ok: "liveRelay ex_handle_fail [MsgFut (Inr ex_msg140)] ex_conn = (ex_conn, [Delivered ex_msg140])"
    by (simp add: ex_handle_fail_def ex_msg140_def)
  have c: "catchupChat ex_fetch ex_handle_fail ex_save False ex_chat ex_conn
       = (Some ''boom'', ex_conn,
          [Fetch ''c1'' 100, Log ''error handling older whapp message: boom''])"
    by (simp add: catchupChat_def tm_Get_def ex_conn_def ex_chat_def ex_raw_def HasCapability_def
        ex_fetch_def ex_handle_fail_def ex_msg120_def ex_msg140_def word_sle_eq)
  have e: "(tm_Length (timestampMap ex_conn) = 0) = False" and l: "Chats ex_conn = [ex_chat]"
    by (simp_all add: tm_Length_def ex_conn_def)
  note inst = message_failure_live_and_catchup [where handle = ex_handle_fail and conn = ex_conn
      and msg = ex_msg120 and err = "''boom''" and conn' = ex_conn and prev = 100
      and rest' = "[ex_msg140]" and fetch = ex_fetch and S = ex_save and empty' = False
      and c = ex_chat
      and evs = "[Fetch ''c1'' 100, Log ''error handling older whapp message: boom'']"]
  from inst [where rest = "[MsgFut (Inr ex_msg140)]" and cs = "[ex_chat]"] h t c ok
  have 1: "liveRelay ex_handle_fail [MsgFut (Inr ex_msg120), MsgFut (Inr ex_msg140)] ex_conn
       = (ex_conn, [Log ''error handling new whapp message: boom'', Delivered ex_msg140])"
    and 2: "replayMessages ex_handle_fail 100 [ex_msg120, ex_msg140] ex_conn
       = (Some ''boom'', ex_conn, [Log ''error handling older whapp message: boom''])"
    and 3: "catchupChats ex_fetch ex_handle_fail ex_save False [ex_chat, ex_chat] ex_conn
       = (Some ''boom'', ex_conn,
          [Fetch ''c1'' 100, Log ''error handling older whapp message: boom''])"
    by simp_all
  have 4: "liveRelay ex_handle_fail [MsgFut (Inl ''timeout''), MsgFut (Inr ex_msg140)] ex_conn
       = (ex_conn, [Log ''error handling new whapp message: timeout'', Delivered ex_msg140])"
    by (simp add: ex_handle_fail_def ex_msg140_def)
  have "catchupChats ex_fetch ex_handle_fail ex_save False [ex_chat] ex_conn
       = (Some ''boom'', ex_conn,
          [Fetch ''c1'' 100, Log ''error handling older whapp message: boom''])"
    by (simp add: c)
  with inst [where rest = "[]" and cs = "[]"] e l
  have 5: "catchup ex_fetch ex_handle_fail ex_save ex_conn
       = (Some ''boom'', ex_conn,
          [Fetch ''c1'' 100, Log ''error handling older whapp message: boom''])"
    by simp
  from h t 1 2 3 4 5 show ?thesis by simp
qed

text \<open>The handler fails on the message of timestamp 120 and would deliver that of 140:
  catch-up returns the error and delivers nothing.\<close>

theorem catchup_stops_at_failed_message_counterexample:
  "ex_handle_fail ex_conn ex_msg140 = (None, ex_conn)
   \<and> fst (catchup ex_fetch ex_handle_fail ex_save ex_conn) = Some ''boom''
   \<and> delivered (snd (snd (catchup ex_fetch ex_handle_fail ex_save ex_conn))) = []"
  by (simp add: catchup_def catchupChat_def tm_Get_def tm_Length_def ex_conn_def ex_chat_def
      ex_raw_def HasCapability_def ex_fetch_def ex_handle_fail_def ex_msg120_def ex_msg140_def
      word_sle_eq)

section \<open>Writes to the timestamp map\<close>

lemma foldl_reset_member:
  "c \<in> set cs \<Longrightarrow> \<exists>d\<in>set cs. ID d = ID c
      \<and> map_of (foldl reset tm cs) (ID c) = Some (wTimestamp (rawChat d))"
proof (induction cs arbitrary: tm rule: rev_induct)
  case Nil
  then show ?case by simp
next
  case (snoc d cs)
  show ?case
  proof (cases "ID d = ID c")
    case True
    then show ?thesis by (auto simp: map_of_tm_Set)
  next
    case False
    with snoc.prems have "c \<in> set cs" by auto
    from snoc.IH [OF this, of tm] False show ?thesis
      by (auto simp: map_of_tm_Set)
  qed
qed

lemma no_replay_reset_keeps_order:
  assumes nr: "tm_Length (timestampMap conn) = 0 \<or> \<not> HasCapability conn ''whapp-irc/replay''"
    and newer: "\<forall>c\<in>set (Chats conn). \<forall>w. map_of (timestampMap conn) (ID c) = Some w
                  \<longrightarrow> w \<le>s wTimestamp (rawChat c)"
  shows "\<forall>k w. map_of (timestampMap conn) k = Some w \<longrightarrow>
           (\<exists>w'. map_of (timestampMap (fst (snd (catchup fetch handle S conn)))) k = Some w'
                \<and> w \<le>s w')"
proof (intro allI impI)
  fix k w
  assume kw: "map_of (timestampMap conn) k = Some w"
  let ?tm' = "foldl reset (timestampMap conn) (Chats conn)"
  have after: "timestampMap (fst (snd (catchup fetch handle S conn))) = ?tm'"
    using catchupChats_noreplay_state [OF nr, of fetch handle S "Chats conn"]
    by (simp add: catchup_def Let_def case_prod_beta split: option.splits)
  show "\<exists>w'. map_of (timestampMap (fst (snd (catchup fetch handle S conn)))) k = Some w' \<and> w \<le>s w'"
  proof (cases "k \<in> ID ` set (Chats conn)")
    case True
    then obtain c where c: "c \<in> set (Chats conn)" and k: "k = ID c" by auto
    from foldl_reset_member [OF c, of "timestampMap conn"] obtain d where
      d: "d \<in> set (Chats conn)" "ID d = ID c"
        "map_of ?tm' (ID c) = Some (wTimestamp (rawChat d))" by blast
    from newer d(1,2) kw k have "w \<le>s wTimestamp (rawChat d)" by simp
    with d(3) k after show ?thesis by simp
  next
    case False
    then have "map_of ?tm' k = map_of (timestampMap conn) k"
      by (rule foldl_reset_other)
    with kw after show ?thesis by simp
  qed
qed

text \<open>
  C7, as the code has it. The write of the branch without replay stores the chat's
  current timestamp whatever the map held before, and the restore of a persisted record
  puts the stored snapshot in the place of the whole map; neither compares with the value
  it overwrites. What holds is conditional: when every chat's current timestamp is at
  least the watermark stored for it, catch-up without replay lowers no entry of the map and
  removes none.
\<close>

theorem watermark_writes_do_not_compare:
  "(empty' \<or> \<not> HasCapability conn ''whapp-irc/replay'' \<longrightarrow>
       map_of (timestampMap (fst (snd (catchupChat fetch handle S empty' c conn))))
         = (map_of (timestampMap conn))(ID c \<mapsto> wTimestamp (rawChat c)))
   \<and> ((tm_Length (timestampMap conn) = 0 \<or> \<not> HasCapability conn ''whapp-irc/replay'')
        \<and> (\<forall>c\<in>set (Chats conn). \<forall>w. map_of (timestampMap conn) (ID c) = Some w
               \<longrightarrow> w \<le>s wTimestamp (rawChat c)) \<longrightarrow>
        (\<forall>k w. map_of (timestampMap conn) k = Some w \<longrightarrow>
           (\<exists>w'. map_of (timestampMap (fst (snd (catchup fetch handle S conn)))) k = Some w'
                \<and> w \<le>s w')))
   \<and> (GetItem_res e (nickname conn) = Inr (Some ob) \<and> Decode_res e ob = Inr user \<longrightarrow>
        timestampMap (fst (snd (setup_restore e conn))) = LastReceivedReceipts user)"
proof (intro conjI impI)
  assume "empty' \<or> \<not> HasCapability conn ''whapp-irc/replay''"
  then show "map_of (timestampMap (fst (snd (catchupChat fetch handle S empty' c conn))))
         = (map_of (timestampMap conn))(ID c \<mapsto> wTimestamp (rawChat c))"
    by (simp add: catchupChat_noreplay map_of_tm_Set)
next
  assume "(tm_Length (timestampMap conn) = 0 \<or> \<not> HasCapability conn ''whapp-irc/replay'')
        \<and> (\<forall>c\<in>set (Chats conn). \<forall>w. map_of (timestampMap conn) (ID c) = Some w
               \<longrightarrow> w \<le>s wTimestamp (rawChat c))"
  then show "\<forall>k w. map_of (timestampMap conn) k = Some w \<longrightarrow>
           (\<exists>w'. map_of (timestampMap (fst (snd (catchup fetch handle S conn)))) k = Some w'
                \<and> w \<le>s w')"
    using no_replay_reset_keeps_order [of conn fetch handle S] by blast
next
  assume "GetItem_res e (nickname conn) = Inr (Some ob) \<and> Decode_res e ob = Inr user"
  then show "timestampMap (fst (snd (setup_restore e conn))) = LastReceivedReceipts user"
    by (simp add: setup_restore_def tm_Swap_def Let_def split: option.splits)
qed

theorem watermark_writes_do_not_compare_witness:
  "\<not> HasCapability (ex_conn\<lparr>caps := []\<rparr>) ''whapp-irc/replay''
   \<and> map_of (timestampMap (ex_conn\<lparr>caps := []\<rparr>)) ''c1'' = Some 100
   \<and> map_of (timestampMap (fst (snd (catchup ex_fetch ex_handle ex_save (ex_conn\<lparr>caps := []\<rparr>)))))
        ''c1'' = Some 150
   \<and> (100 :: int64) \<le>s 150
   \<and> map_of (timestampMap (fst (snd (catchupChat ex_fetch ex_handle ex_save False ex_chat
                                        (ex_conn\<lparr>caps := []\<rparr>))))) ''c1'' = Some 150
   \<and> timestampMap (fst (snd (setup_restore ex_env_record ex_new_conn))) = [(''c1'', 100)]"
proof -
  let ?conn = "ex_conn\<lparr>caps := []\<rparr>"
  note inst = watermark_writes_do_not_compare [where conn = ?conn and fetch = ex_fetch
      and handle = ex_handle and S = ex_save and empty' = False and c = ex_chat]
  have nr: "\<not> HasCapability ?conn ''whapp-irc/replay''"
    by (simp add: HasCapability_def)
  have newer: "\<forall>c\<in>set (Chats ?conn). \<forall>w. map_of (timestampMap ?conn) (ID c) = Some w
                  \<longrightarrow> w \<le>s wTimestamp (rawChat c)"
    by (simp add: ex_conn_def ex_chat_def ex_raw_def word_sle_eq)
  have old: "map_of (timestampMap ?conn) ''c1'' = Some 100"
    by (simp add: ex_conn_def)
  from inst nr newer have "\<forall>k w. map_of (timestampMap ?conn) k = Some w \<longrightarrow>
      (\<exists>w'. map_of (timestampMap (fst (snd (catchup ex_fetch ex_handle ex_save ?conn)))) k = Some w'
           \<and> w \<le>s w')"
    by blast
  with old obtain w' where
    "map_of (timestampMap (fst (snd (catchup ex_fetch ex_handle ex_save ?conn)))) ''c1'' = Some w'"
    by blast
  moreover have "map_of (timestampMap (fst (snd (catchup ex_fetch ex_handle ex_save ?conn)))) ''c1''
      = Some 150"
    by (simp add: catchup_def catchupChat_def tm_Get_def tm_Length_def ex_conn_def ex_chat_def
        ex_raw_def HasCapability_def saveDatabaseEntry_def ex_save_def)
  moreover from inst nr
  have "map_of (timestampMap (fst (snd (catchupChat ex_fetch ex_handle ex_save False ex_chat ?conn))))
      = (map_of (timestampMap ?conn))(ID ex_chat \<mapsto> wTimestamp (rawChat ex_chat))"
    by blast
  then have "map_of (timestampMap (fst (snd (catchupChat ex_fetch ex_handle ex_save False ex_chat
      ?conn)))) ''c1'' = Some 150"
    by (simp add: ex_chat_def ex_raw_def)
  moreover have "timestampMap (fst (snd (setup_restore ex_env_record ex_new_conn))) = [(''c1'', 100)]"
    using watermark_writes_do_not_compare [where e = ex_env_record and conn = ex_new_conn
        and ob = "''blob''" and user = "\<lparr>LocalStorage = [], LastReceivedReceipts = [(''c1'', 100)]\<rparr>"]
    by (simp add: ex_env_record_def ex_env_def)
  ultimately show ?thesis
    using nr old by (simp add: word_sle_eq)
qed

text \<open>Without replay, a chat whose current timestamp is 50 has its watermark of 100
  overwritten by 50.\<close>

theorem no_replay_reset_rewinds_counterexample:
  "tm_Get (timestampMap ex_conn_stale) ''c1'' = (100, True)
   \<and> tm_Get (timestampMap (fst (snd (catchup ex_fetch ex_handle ex_save ex_conn_stale)))) ''c1''
       = (50, True)
   \<and> \<not> (100 :: int64) \<le>s 50"
  by (simp add: catchup_def catchupChat_def tm_Get_def tm_Length_def ex_conn_stale_def ex_conn_def
      ex_chat_def ex_raw_def HasCapability_def saveDatabaseEntry_def ex_save_def word_sle_eq)

section \<open>Joining a chat\<close>

lemma writeIRCNow_ok: "writeIRCNow w str = (None, evs) \<Longrightarrow> evs = [Write str]"
  by (simp add: writeIRCNow_def split: option.splits)

lemma joinChat_nil_result:
  assumes "joinChat Identifier TrimSpace w conn ref = (None, ref', evs)"
  shows "\<exists>chat'. ref' = Some chat' \<and> IsGroupChat chat' \<and> Joined chat'"
proof (cases ref)
  case None
  with assms show ?thesis by (simp add: joinChat_def)
next
  case (Some chat)
  with assms show ?thesis
    by (auto simp: joinChat_def Let_def split: if_splits prod.splits option.splits)
qed

lemma joinChat_fresh:
  assumes "IsGroupChat chat" and "\<not> Joined chat"
    and "joinChat Identifier TrimSpace w conn (Some chat) = (None, ref', evs)"
  shows "ref' = Some (chat\<lparr>Joined := True\<rparr>)
       \<and> written evs =
           [ joinLine (nickname conn) (Identifier chat),
             topicLine TrimSpace (nickname conn) (Identifier chat) chat ]
           @ written (snd (namesLoop w (nickname conn) (Identifier chat) (Participants chat)))
           @ [ namesLine (nickname conn) (Identifier chat)
                 (fst (namesLoop w (nickname conn) (Identifier chat) (Participants chat))),
               endLine (nickname conn) (Identifier chat) ]"
  using assms
  by (auto simp: joinChat_def Let_def split: if_splits prod.splits option.splits
      dest!: writeIRCNow_ok)

lemma joinChat_error:
  assumes "IsGroupChat chat" and "\<not> Joined chat"
  shows "fst (joinChat Identifier TrimSpace w conn (Some chat))
       = (case w (joinLine (nickname conn) (Identifier chat)) of
            Some err \<Rightarrow> Some err
          | None \<Rightarrow>
          (case w (topicLine TrimSpace (nickname conn) (Identifier chat) chat) of
            Some err \<Rightarrow> Some err
          | None \<Rightarrow>
          (case w (namesLine (nickname conn) (Identifier chat)
                     (fst (namesLoop w (nickname conn) (Identifier chat) (Participants chat)))) of
            Some err \<Rightarrow> Some err
          | None \<Rightarrow> w (endLine (nickname conn) (Identifier chat)))))"
  using assms
  by (simp add: joinChat_def Let_def writeIRCNow_def case_prod_beta split: option.splits)

lemma joinChat_error_unjoined:
  assumes "fst (joinChat Identifier TrimSpace w conn (Some chat)) = Some err"
  shows "fst (snd (joinChat Identifier TrimSpace w conn (Some chat))) = Some chat"
  using assms
  by (simp add: joinChat_def Let_def writeIRCNow_def case_prod_beta split: option.splits if_splits)

text \<open>
  C5, as the code has it. \<open>joinChat\<close> returns an error for a nil chat and for a chat that is
  not a group chat, and returns nil without output for a chat already joined. The chat is
  marked as joined only when the JOIN, topic, names and end-of-names lines were all
  written: a call that returned nil is followed by calls that return nil and write
  nothing, and for a group chat not yet joined the lines of that one call are the JOIN
  line, the topic line, the MODE line if any, the names line and the end-of-names line.
  For such a chat the error returned is that of the first of these four lines that could
  not be written, nil when all were, and a call that returns an error leaves the chat as
  it was, unjoined. The error of the MODE write is dropped: it is not among the four.
\<close>

theorem joinChat_guards_and_once:
  "joinChat Identifier TrimSpace w conn None = (Some ''chat is nil'', None, [])
   \<and> (\<not> IsGroupChat chat \<longrightarrow>
        joinChat Identifier TrimSpace w conn (Some chat) = (Some ''not a group chat'', Some chat, []))
   \<and> (IsGroupChat chat \<and> Joined chat \<longrightarrow>
        joinChat Identifier TrimSpace w conn (Some chat) = (None, Some chat, []))
   \<and> (joinChat Identifier TrimSpace w conn ref = (None, ref', evs) \<longrightarrow>
        joinChat Identifier TrimSpace w' conn ref' = (None, ref', []))
   \<and> (IsGroupChat chat \<and> \<not> Joined chat
        \<and> joinChat Identifier TrimSpace w conn (Some chat) = (None, ref', evs) \<longrightarrow>
        ref' = Some (chat\<lparr>Joined := True\<rparr>)
      \<and> written evs =
           [ joinLine (nickname conn) (Identifier chat),
             topicLine TrimSpace (nickname conn) (Identifier chat) chat ]
           @ written (snd (namesLoop w (nickname conn) (Identifier chat) (Participants chat)))
           @ [ namesLine (nickname conn) (Identifier chat)
                 (fst (namesLoop w (nickname conn) (Identifier chat) (Participants chat))),
               endLine (nickname conn) (Identifier chat) ])
   \<and> (IsGroupChat chat \<and> \<not> Joined chat \<longrightarrow>
        fst (joinChat Identifier TrimSpace w conn (Some chat))
          = (case w (joinLine (nickname conn) (Identifier chat)) of
               Some err \<Rightarrow> Some err
             | None \<Rightarrow>
             (case w (topicLine TrimSpace (nickname conn) (Identifier chat) chat) of
               Some err \<Rightarrow> Some err
             | None \<Rightarrow>
             (case w (namesLine (nickname conn) (Identifier chat)
                        (fst (namesLoop w (nickname conn) (Identifier chat) (Participants chat)))) of
               Some err \<Rightarrow> Some err
             | None \<Rightarrow> w (endLine (nickname conn) (Identifier chat))))))
   \<and> (fst (joinChat Identifier TrimSpace w conn (Some chat)) = Some err \<longrightarrow>
        fst (snd (joinChat Identifier TrimSpace w conn (Some chat))) = Some chat)"
proof (intro conjI impI)
  show "joinChat Identifier TrimSpace w conn None = (Some ''chat is nil'', None, [])"
    by (simp add: joinChat_def)
  show "joinChat Identifier TrimSpace w conn (Some chat) = (Some ''not a group chat'', Some chat, [])"
    if "\<not> IsGroupChat chat"
    using that by (simp add: joinChat_def)
  show "joinChat Identifier TrimSpace w conn (Some chat) = (None, Some chat, [])"
    if "IsGroupChat chat \<and> Joined chat"
    using that by (simp add: joinChat_def)
  show "joinChat Identifier TrimSpace w' conn ref' = (None, ref', [])"
    if "joinChat Identifier TrimSpace w conn ref = (None, ref', evs)"
  proof -
    from joinChat_nil_result [OF that] obtain chat' where
      "ref' = Some chat'" "IsGroupChat chat'" "Joined chat'" by blast
    then show ?thesis by (simp add: joinChat_def)
  qed
  show "fst (joinChat Identifier TrimSpace w conn (Some chat)) =
          (case w (joinLine (nickname conn) (Identifier chat)) of
               Some err \<Rightarrow> Some err
             | None \<Rightarrow>
             (case w (topicLine TrimSpace (nickname conn) (Identifier chat) chat) of
               Some err \<Rightarrow> Some err
             | None \<Rightarrow>
             (case w (namesLine (nickname conn) (Identifier chat)
                        (fst (namesLoop w (nickname conn) (Identifier chat) (Participants chat)))) of
               Some err \<Rightarrow> Some err
             | None \<Rightarrow> w (endLine (nickname conn) (Identifier chat)))))"
    if "IsGroupChat chat \<and> \<not> Joined chat"
    using that by (simp add: joinChat_error)
  show "fst (snd (joinChat Identifier TrimSpace w conn (Some chat))) = Some chat"
    if "fst (joinChat Identifier TrimSpace w conn (Some chat)) = Some err"
    using that by (rule joinChat_error_unjoined)
next
  assume a: "IsGroupChat chat \<and> \<not> Joined chat
        \<and> joinChat Identifier TrimSpace w conn (Some chat) = (None, ref', evs)"
  then have g: "IsGroupChat chat" and j: "\<not> Joined chat"
    and r: "joinChat Identifier TrimSpace w conn (Some chat) = (None, ref', evs)"
    by simp_all
  from joinChat_fresh [OF g j r] show "ref' = Some (chat\<lparr>Joined := True\<rparr>)" by simp
  from joinChat_fresh [OF g j r] show "written evs =
           [ joinLine (nickname conn) (Identifier chat),
             topicLine TrimSpace (nickname conn) (Identifier chat) chat ]
           @ written (snd (namesLoop w (nickname conn) (Identifier chat) (Participants chat)))
           @ [ namesLine (nickname conn) (Identifier chat)
                 (fst (namesLoop w (nickname conn) (Identifier chat) (Participants chat))),
               endLine (nickname conn) (Identifier chat) ]" by simp
qed

lemma ex_join_first:
  "joinChat ex_ident id ex_write ex_conn (Some ex_chat)
     = (None, Some (ex_chat\<lparr>Joined := True\<rparr>),
        [Write '':bob JOIN #Family'', Write '':whapp-irc 332 bob #Family :Family'',
         Write '':whapp-irc 353 bob @ #Family :'',
         Write '':whapp-irc 366 bob #Family :End of /NAMES list.''])"
  by (simp add: joinChat_def Let_def writeIRCNow_def topicLine_def joinLine_def namesLine_def
      endLine_def ex_conn_def ex_chat_def ex_raw_def ex_ident_def ex_write_def)

lemma ex_join_fail_end:
  "joinChat ex_ident id ex_write_fail_end ex_conn (Some ex_chat)
     = (Some ''broken pipe'', Some ex_chat,
        [Write '':bob JOIN #Family'', Write '':whapp-irc 332 bob #Family :Family'',
         Write '':whapp-irc 353 bob @ #Family :''])"
  by (simp add: joinChat_def Let_def writeIRCNow_def topicLine_def joinLine_def namesLine_def
      endLine_def ex_conn_def ex_chat_def ex_raw_def ex_ident_def ex_write_fail_end_def)

lemma ex_join_fail_mode:
  "joinChat ex_ident id ex_write_fail_mode ex_conn (Some ex_chat_admin)
     = (None, Some (ex_chat_admin\<lparr>Joined := True\<rparr>),
        [Write '':bob JOIN #Family'', Write '':whapp-irc 332 bob #Family :Family'',
         Write '':whapp-irc 353 bob @ #Family :@alice'',
         Write '':whapp-irc 366 bob #Family :End of /NAMES list.''])"
  by (simp add: joinChat_def Let_def writeIRCNow_def topicLine_def joinLine_def namesLine_def
      endLine_def ex_conn_def ex_chat_admin_def ex_chat_def ex_raw_def ex_ident_def
      ex_write_fail_mode_def)

text \<open>
  A first call and a second one; a chat that is not a group chat; a call whose
  end-of-names line cannot be written, which returns the error and leaves the chat
  unjoined; a call whose MODE line cannot be written, which returns nil and joins.
\<close>

theorem joinChat_guards_and_once_witness:
  "IsGroupChat ex_chat \<and> \<not> Joined ex_chat
   \<and> written (snd (snd (joinChat ex_ident id ex_write ex_conn (Some ex_chat))))
       = ['':bob JOIN #Family'', '':whapp-irc 332 bob #Family :Family'',
          '':whapp-irc 353 bob @ #Family :'',
          '':whapp-irc 366 bob #Family :End of /NAMES list.'']
   \<and> joinChat ex_ident id ex_write ex_conn
         (fst (snd (joinChat ex_ident id ex_write ex_conn (Some ex_chat))))
       = (None, Some (ex_chat\<lparr>Joined := True\<rparr>), [])
   \<and> fst (joinChat ex_ident id ex_write ex_conn (Some (ex_chat\<lparr>IsGroupChat := False\<rparr>)))
       = Some ''not a group chat''
   \<and> ex_write_fail_end (endLine (nickname ex_conn) (ex_ident ex_chat)) = Some ''broken pipe''
   \<and> fst (joinChat ex_ident id ex_write_fail_end ex_conn (Some ex_chat)) = Some ''broken pipe''
   \<and> fst (snd (joinChat ex_ident id ex_write_fail_end ex_conn (Some ex_chat))) = Some ex_chat
   \<and> ex_write_fail_mode ('':whapp-irc MODE #Family +o bob'') = Some ''broken pipe''
   \<and> joinChat ex_ident id ex_write_fail_mode ex_conn (Some ex_chat_admin)
       = (None, Some (ex_chat_admin\<lparr>Joined := True\<rparr>),
          [Write '':bob JOIN #Family'', Write '':whapp-irc 332 bob #Family :Family'',
           Write '':whapp-irc 353 bob @ #Family :@alice'',
           Write '':whapp-irc 366 bob #Family :End of /NAMES list.''])"
proof -
  have g: "IsGroupChat ex_chat \<and> \<not> Joined ex_chat"
    by (simp add: ex_chat_def)
  note first = joinChat_guards_and_once [where Identifier = ex_ident and TrimSpace = id
      and w = ex_write and w' = ex_write and conn = ex_conn and ref = "Some ex_chat"
      and chat = "ex_chat\<lparr>IsGroupChat := False\<rparr>" and ref' = "Some (ex_chat\<lparr>Joined := True\<rparr>)"
      and evs = "snd (snd (joinChat ex_ident id ex_write ex_conn (Some ex_chat)))"]
  have a: "joinChat ex_ident id ex_write ex_conn
         (fst (snd (joinChat ex_ident id ex_write ex_conn (Some ex_chat))))
       = (None, Some (ex_chat\<lparr>Joined := True\<rparr>), [])"
    using first by (simp add: ex_join_first)
  have b: "fst (joinChat ex_ident id ex_write ex_conn (Some (ex_chat\<lparr>IsGroupChat := False\<rparr>)))
       = Some ''not a group chat''"
    using first by (simp add: ex_chat_def)
  have l: "ex_write_fail_end (endLine (nickname ex_conn) (ex_ident ex_chat)) = Some ''broken pipe''"
    and m: "ex_write_fail_mode ('':whapp-irc MODE #Family +o bob'') = Some ''broken pipe''"
    by (simp_all add: ex_write_fail_end_def ex_write_fail_mode_def endLine_def)
  note failing = joinChat_guards_and_once [where Identifier = ex_ident and TrimSpace = id
      and w = ex_write_fail_end and conn = ex_conn and chat = ex_chat
      and err = "''broken pipe''"]
  have e: "fst (joinChat ex_ident id ex_write_fail_end ex_conn (Some ex_chat)) = Some ''broken pipe''"
    by (simp add: ex_join_fail_end)
  with failing have u: "fst (snd (joinChat ex_ident id ex_write_fail_end ex_conn (Some ex_chat)))
      = Some ex_chat"
    by blast
  from g a b l e u m show ?thesis
    by (simp add: ex_join_first ex_join_fail_mode)
qed

text \<open>When the end-of-names line of the first call cannot be written, the chat stays
  unjoined and the second call writes the JOIN, topic and names lines again.\<close>

theorem joinChat_failed_write_repeats_counterexample:
  "fst (joinChat ex_ident id ex_write_fail_end ex_conn (Some ex_chat)) = Some ''broken pipe''
   \<and> fst (joinChat ex_ident id ex_write ex_conn
           (fst (snd (joinChat ex_ident id ex_write_fail_end ex_conn (Some ex_chat))))) = None
   \<and> written (snd (snd (joinChat ex_ident id ex_write_fail_end ex_conn (Some ex_chat)))
        @ snd (snd (joinChat ex_ident id ex_write ex_conn
           (fst (snd (joinChat ex_ident id ex_write_fail_end ex_conn (Some ex_chat)))))))
       = ['':bob JOIN #Family'', '':whapp-irc 332 bob #Family :Family'',
          '':whapp-irc 353 bob @ #Family :'',
          '':bob JOIN #Family'', '':whapp-irc 332 bob #Family :Family'',
          '':whapp-irc 353 bob @ #Family :'',
          '':whapp-irc 366 bob #Family :End of /NAMES list.'']"
  by (simp add: ex_join_fail_end ex_join_first)

section \<open>A record that cannot be saved\<close>

lemma catchupChat_save_independent:
  "fst (catchupChat fetch handle S empty' c conn) = fst (catchupChat fetch handle S' empty' c conn)
   \<and> fst (snd (catchupChat fetch handle S empty' c conn))
       = fst (snd (catchupChat fetch handle S' empty' c conn))"
  by (simp add: catchupChat_def Let_def case_prod_beta split: sum.splits)

lemma catchupChats_save_independent:
  "fst (catchupChats fetch handle S empty' cs conn) = fst (catchupChats fetch handle S' empty' cs conn)
   \<and> fst (snd (catchupChats fetch handle S empty' cs conn))
       = fst (snd (catchupChats fetch handle S' empty' cs conn))
   \<and> delivered (snd (snd (catchupChats fetch handle S empty' cs conn)))
       = delivered (snd (snd (catchupChats fetch handle S' empty' cs conn)))"
proof (induction cs arbitrary: conn)
  case Nil
  then show ?case by simp
next
  case (Cons c cs)
  obtain ra ca ea where a: "catchupChat fetch handle S empty' c conn = (ra, ca, ea)"
    by (cases "catchupChat fetch handle S empty' c conn") auto
  obtain rb cb eb where b: "catchupChat fetch handle S' empty' c conn = (rb, cb, eb)"
    by (cases "catchupChat fetch handle S' empty' c conn") auto
  from catchupChat_save_independent [of fetch handle S empty' c conn S'] a b
  have r: "rb = ra" and s: "cb = ca" by simp_all
  have "delivered (snd (snd (catchupChat fetch handle S empty' c conn)))
      = delivered (snd (snd (catchupChat fetch handle S' empty' c conn)))"
    by (simp add: catchupChat_delivered)
  with a b have d: "delivered eb = delivered ea" by simp
  show ?case
  proof (cases ra)
    case None
    with a b r s d Cons.IH [of ca] show ?thesis
      by (simp add: case_prod_beta)
  next
    case (Some err)
    with a b r s d show ?thesis by simp
  qed
qed

text \<open>
  C8, as the code has it. \<open>saveDatabaseEntry\<close> returns the error of the store. Catch-up
  drops it: the error catch-up returns, the connection it leaves and the messages it
  delivers are the same whatever the store answers. \<open>Connection.setup\<close> does not drop it:
  when the local storage was fetched and the save fails, the step returns that error with
  the connection holding the fetched local storage, and so does the part of
  \<open>Connection.setup\<close> from \<open>WaitLogin\<close> on.
\<close>

theorem save_failure_dropped_in_catchup_returned_by_setup:
  "fst (saveDatabaseEntry S conn)
     = S (nickname conn) \<lparr> LocalStorage = localStorage conn,
                            LastReceivedReceipts = timestampMap conn \<rparr>
   \<and> fst (catchup fetch handle S conn) = fst (catchup fetch handle S' conn)
   \<and> fst (snd (catchup fetch handle S conn)) = fst (snd (catchup fetch handle S' conn))
   \<and> delivered (snd (snd (catchup fetch handle S conn)))
       = delivered (snd (snd (catchup fetch handle S' conn)))
   \<and> (GetLocalStorage_res e = (ls, None)
        \<and> SaveItem_res e (nickname conn)
             \<lparr> LocalStorage = ls, LastReceivedReceipts = timestampMap conn \<rparr> = Some err \<longrightarrow>
        setup_persist e conn
          = (Some err, conn\<lparr>localStorage := ls\<rparr>,
             [SaveItem (nickname conn)
                \<lparr> LocalStorage = ls, LastReceivedReceipts = timestampMap conn \<rparr>,
              Log (''error while updating user entry: '' @ err)])
      \<and> (WaitLogin_res e = None \<longrightarrow>
           fst (setup_login e Identifier conn) = Some err
         \<and> fst (snd (setup_login e Identifier conn)) = conn\<lparr>localStorage := ls\<rparr>))"
proof -
  let ?e = "tm_Length (timestampMap conn) = 0"
  have a: "fst (saveDatabaseEntry S conn)
     = S (nickname conn) \<lparr> LocalStorage = localStorage conn,
                            LastReceivedReceipts = timestampMap conn \<rparr>"
    by (simp add: saveDatabaseEntry_def Let_def tm_GetCopy_def)
  note i = catchupChats_save_independent [of fetch handle S ?e "Chats conn" conn S']
  have b: "fst (catchup fetch handle S conn) = fst (catchup fetch handle S' conn)"
    using i by (simp add: catchup_def Let_def case_prod_beta split: option.splits)
  have c: "fst (snd (catchup fetch handle S conn)) = fst (snd (catchup fetch handle S' conn))"
    using i by (simp add: catchup_def Let_def case_prod_beta split: option.splits)
  have d: "delivered (snd (snd (catchup fetch handle S conn)))
       = delivered (snd (snd (catchup fetch handle S' conn)))"
    using i by (simp add: catchup_def Let_def case_prod_beta split: option.splits)
  have p: "setup_persist e conn
          = (Some err, conn\<lparr>localStorage := ls\<rparr>,
             [SaveItem (nickname conn)
                \<lparr> LocalStorage = ls, LastReceivedReceipts = timestampMap conn \<rparr>,
              Log (''error while updating user entry: '' @ err)])"
    if "GetLocalStorage_res e = (ls, None)"
      and "SaveItem_res e (nickname conn)
             \<lparr> LocalStorage = ls, LastReceivedReceipts = timestampMap conn \<rparr> = Some err"
    using that by (simp add: setup_persist_def saveDatabaseEntry_def Let_def tm_GetCopy_def)
  have l: "fst (setup_login e Identifier conn) = Some err
         \<and> fst (snd (setup_login e Identifier conn)) = conn\<lparr>localStorage := ls\<rparr>"
    if "GetLocalStorage_res e = (ls, None)"
      and "SaveItem_res e (nickname conn)
             \<lparr> LocalStorage = ls, LastReceivedReceipts = timestampMap conn \<rparr> = Some err"
      and "WaitLogin_res e = None"
    using that p by (simp add: setup_login_def)
  from a b c d p l show ?thesis by blast
qed

theorem save_failure_dropped_in_catchup_returned_by_setup_witness:
  "GetLocalStorage_res ex_env_save_fails = ([(''token'', ''abc'')], None)
   \<and> WaitLogin_res ex_env_save_fails = None
   \<and> fst (setup_login ex_env_save_fails Name ex_new_conn) = Some ''disk full''
   \<and> fst (snd (setup_login ex_env_save_fails Name ex_new_conn))
       = ex_new_conn\<lparr>localStorage := [(''token'', ''abc'')]\<rparr>
   \<and> fst (catchup ex_fetch ex_handle (\<lambda>nick user. Some ''disk full'') ex_conn)
       = fst (catchup ex_fetch ex_handle ex_save ex_conn)"
  using save_failure_dropped_in_catchup_returned_by_setup [where e = ex_env_save_fails
      and conn = ex_new_conn and ls = "[(''token'', ''abc'')]" and err = "''disk full''"
      and Identifier = Name]
    save_failure_dropped_in_catchup_returned_by_setup [where conn = ex_conn and fetch = ex_fetch
      and handle = ex_handle and S = "\<lambda>nick user. Some ''disk full''" and S' = ex_save]
  by (simp add: ex_env_save_fails_def ex_env_def)

text \<open>With every other call succeeding, \<open>Connection.setup\<close> returns nil when the store
  saves and the error of the store when it does not.\<close>

theorem setup_fails_on_save_failure_counterexample:
  "fst (conn_setup ex_env Name ex_new_conn) = None
   \<and> fst (conn_setup ex_env_save_fails Name ex_new_conn) = Some ''disk full''"
  by (simp add: conn_setup_def setup_restore_def setup_login_def setup_persist_def saveDatabaseEntry_def
      addChat_def convertChat_def ex_env_save_fails_def ex_env_def ex_new_conn_def ex_save_def
      ex_parts_def MakeConnection_def Let_def)

section \<open>Five attempts to set up, and what follows the last\<close>

lemma conn_setup_starts_bridge:
  "\<exists>rest. snd (snd (conn_setup e Identifier conn)) = BridgeStart # rest"
  by (simp add: conn_setup_def case_prod_beta split: option.splits sum.splits)

lemma attempt_stops_then_starts:
  "\<exists>rest. snd (snd (attempt e Identifier conn)) = BridgeStop # BridgeStart # rest"
proof -
  obtain r conn' evs where s: "conn_setup e Identifier conn = (r, conn', evs)"
    by (cases "conn_setup e Identifier conn") auto
  with conn_setup_starts_bridge [of e Identifier conn] obtain rest where
    "evs = BridgeStart # rest" by auto
  with s show ?thesis
    by (cases r) (simp_all add: attempt_def)
qed

lemma attempt_error_is_setup_error:
  "fst (attempt e Identifier conn) = fst (conn_setup e Identifier conn)"
  by (simp add: attempt_def case_prod_beta split: option.splits)

text \<open>No step of \<open>Connection.setup\<close> closes \<open>welcomeCh\<close> or the socket.\<close>

lemma setup_restore_closes_nothing:
  "\<forall>ev\<in>set (snd (snd (setup_restore e conn))). \<not> closes ev"
  by (simp add: setup_restore_def Let_def split: sum.splits option.splits)

lemma setup_persist_closes_nothing:
  "\<forall>ev\<in>set (snd (snd (setup_persist e conn))). \<not> closes ev"
  by (simp add: setup_persist_def saveDatabaseEntry_def Let_def case_prod_beta
      split: option.splits)

lemma setup_chats_closes_nothing:
  "\<forall>ev\<in>set (snd (snd (setup_chats e Identifier chats conn))). \<not> closes ev"
proof (induction chats arbitrary: conn)
  case Nil
  then show ?case by simp
next
  case (Cons chat chats)
  show ?case
  proof (cases "Participants_res e chat")
    case (Inl err)
    then show ?thesis by (simp add: addChat_def convertChat_def)
  next
    case (Inr ps)
    from Cons.IH [of "conn\<lparr>Chats := upsertChat (Chats conn) (newChat chat ps)\<rparr>"] Inr
    show ?thesis
      by (simp add: addChat_def convertChat_def case_prod_beta)
  qed
qed

lemma setup_login_closes_nothing:
  "\<forall>ev\<in>set (snd (snd (setup_login e Identifier conn))). \<not> closes ev"
proof (cases "WaitLogin_res e")
  case (Some err)
  then show ?thesis by (simp add: setup_login_def)
next
  case None
  obtain r1 conn1 ev1 where p: "setup_persist e conn = (r1, conn1, ev1)"
    by (cases "setup_persist e conn") auto
  with setup_persist_closes_nothing [of e conn] have ev1: "\<forall>ev\<in>set ev1. \<not> closes ev"
    by simp
  obtain m er where g: "GetMe_res e = (m, er)"
    by (cases "GetMe_res e") auto
  show ?thesis
  proof (cases "r1 = None \<and> er = None")
    case False
    with None p g ev1 show ?thesis
      by (cases r1; cases er) (simp_all add: setup_login_def Let_def split: sum.splits)
  next
    case True
    show ?thesis
    proof (cases "GetAllChats_res e")
      case (Inl err)
      with None p g ev1 True show ?thesis
        by (simp add: setup_login_def Let_def)
    next
      case (Inr chats)
      with None p g ev1 True setup_chats_closes_nothing [of e Identifier chats "conn1\<lparr>me := m\<rparr>"]
      show ?thesis
        by (auto simp: setup_login_def Let_def case_prod_beta)
    qed
  qed
qed

lemma setup_qr_closes_nothing:
  "\<forall>ev\<in>set (snd (snd (setup_qr e Identifier conn))). \<not> closes ev"
  using setup_login_closes_nothing [of e Identifier conn]
  by (auto simp: setup_qr_def Let_def case_prod_beta split: sum.splits option.splits)

lemma attempt_closes_nothing:
  "\<forall>ev\<in>set (snd (snd (attempt e Identifier conn))). \<not> closes ev"
proof -
  have "\<forall>ev\<in>set (snd (snd (conn_setup e Identifier conn))). \<not> closes ev"
  proof (cases "Start_res e")
    case (Some err)
    then show ?thesis by (simp add: conn_setup_def)
  next
    case None
    obtain r1 conn1 ev1 where p: "setup_restore e conn = (r1, conn1, ev1)"
      by (cases "setup_restore e conn") auto
    with setup_restore_closes_nothing [of e conn] have ev1: "\<forall>ev\<in>set ev1. \<not> closes ev"
      by simp
    from None p ev1 setup_qr_closes_nothing [of e Identifier conn1]
      setup_login_closes_nothing [of e Identifier conn1]
    show ?thesis
      by (cases r1) (auto simp: conn_setup_def case_prod_beta split: sum.splits)
  qed
  then show ?thesis
    by (simp add: attempt_def case_prod_beta split: option.splits)
qed

lemma retry_Do_success:
  "f i s = (None, s', v) \<Longrightarrow> retry_Do f (Suc n) delayOf errorOf i errs s = (None, s', v)"
  by simp

lemma retry_Do_fail_last:
  "f i s = (Some e, s', v) \<Longrightarrow> all = errs @ [e]
     \<Longrightarrow> retry_Do f (Suc 0) delayOf errorOf i errs s = (Some (errorOf all), s', v)"
  by simp

lemma retry_Do_fail_more:
  "f i s = (Some e, s', v) \<Longrightarrow> j = Suc i \<Longrightarrow> errs' = errs @ [e]
     \<Longrightarrow> retry_Do f (Suc n) delayOf errorOf j errs' s' = (r, s'', v')
     \<Longrightarrow> retry_Do f (Suc (Suc n)) delayOf errorOf i errs s = (r, s'', v @ Sleep (delayOf i) # v')"
  by simp

lemma retry_Do_five_failures:
  assumes "f 0 s0 = (Some e0, s1, v0)" and "f 1 s1 = (Some e1, s2, v1)"
    and "f 2 s2 = (Some e2, s3, v2)" and "f 3 s3 = (Some e3, s4, v3)"
    and "f 4 s4 = (Some e4, s5, v4)"
  shows "retry_Do f 5 delayOf errorOf 0 [] s0
     = (Some (errorOf [e0, e1, e2, e3, e4]), s5,
        v0 @ Sleep (delayOf 0) # v1 @ Sleep (delayOf 1) # v2 @ Sleep (delayOf 2) # v3
          @ Sleep (delayOf 3) # v4)"
proof -
  have r4: "retry_Do f (Suc 0) delayOf errorOf 4 [e0, e1, e2, e3] s4
      = (Some (errorOf [e0, e1, e2, e3, e4]), s5, v4)"
    by (rule retry_Do_fail_last [where f = f and i = 4 and s = s4, OF assms(5)]) simp
  have r3: "retry_Do f (Suc (Suc 0)) delayOf errorOf 3 [e0, e1, e2] s3
      = (Some (errorOf [e0, e1, e2, e3, e4]), s5, v3 @ Sleep (delayOf 3) # v4)"
    by (rule retry_Do_fail_more [where f = f and i = 3 and s = s3 and j = 4
          and errs' = "[e0, e1, e2, e3]", OF assms(4) _ _ r4]) simp_all
  have r2: "retry_Do f (Suc (Suc (Suc 0))) delayOf errorOf 2 [e0, e1] s2
      = (Some (errorOf [e0, e1, e2, e3, e4]), s5,
         v2 @ Sleep (delayOf 2) # v3 @ Sleep (delayOf 3) # v4)"
    by (rule retry_Do_fail_more [where f = f and i = 2 and s = s2 and j = 3
          and errs' = "[e0, e1, e2]", OF assms(3) _ _ r3]) simp_all
  have r1: "retry_Do f (Suc (Suc (Suc (Suc 0)))) delayOf errorOf 1 [e0] s1
      = (Some (errorOf [e0, e1, e2, e3, e4]), s5,
         v1 @ Sleep (delayOf 1) # v2 @ Sleep (delayOf 2) # v3 @ Sleep (delayOf 3) # v4)"
    by (rule retry_Do_fail_more [where f = f and i = 1 and s = s1 and j = 2
          and errs' = "[e0, e1]", OF assms(2) _ _ r2]) simp_all
  have r0: "retry_Do f (Suc (Suc (Suc (Suc (Suc 0))))) delayOf errorOf 0 [] s0
      = (Some (errorOf [e0, e1, e2, e3, e4]), s5,
         v0 @ Sleep (delayOf 0) # v1 @ Sleep (delayOf 1) # v2 @ Sleep (delayOf 2) # v3
           @ Sleep (delayOf 3) # v4)"
    by (rule retry_Do_fail_more [where f = f and i = 0 and s = s0 and j = 1
          and errs' = "[e0]", OF assms(1) _ _ r1]) simp_all
  have "(5::nat) = Suc (Suc (Suc (Suc (Suc 0))))" by simp
  then show ?thesis by (simp only: r0)
qed

text \<open>
  C4, at the input where the code leaves the claim. A NICK command on a connection not yet
  welcomed, with both welcome lines written and with five attempts that all fail: the
  events are the two welcome lines, the five attempts with a sleep of the library between
  two of them and none after the last, the status line that reports the error the library
  built, and the cancellation of the context by the command loop that is left. Every
  attempt begins by stopping the bridge and starting it again. After that the routine of
  \<open>BindSocket\<close> is still on its receive from \<open>welcomeCh\<close>, which nothing closed and nothing
  will close: \<open>BindSocket\<close> does not return, and the socket is not closed.
\<close>

theorem give_up_leaves_BindSocket_blocked:
  assumes fresh: "\<not> welcomed conn" and nick: "param \<noteq> []"
    and w1: "w ('':whapp-irc 001 '' @ param @ '' Welcome to whapp-irc, '' @ param @ ''.'') = None"
    and w2: "w ('':whapp-irc 002 '' @ param @ '' Enjoy the ride.'') = None"
    and a0: "attempt (envs 0) Identifier (conn\<lparr>nickname := param, welcomed := True\<rparr>)
               = (Some e0, c1, ev0)"
    and a1: "attempt (envs 1) Identifier c1 = (Some e1, c2, ev1)"
    and a2: "attempt (envs 2) Identifier c2 = (Some e2, c3, ev2)"
    and a3: "attempt (envs 3) Identifier c3 = (Some e3, c4, ev3)"
    and a4: "attempt (envs 4) Identifier c4 = (Some e4, c5, ev4)"
  shows "BindSocket_nick envs DelayType errorOf Identifier w fetch handle store conn param =
           (BlockedOnWelcomeCh, c5,
            Write ('':whapp-irc 001 '' @ param @ '' Welcome to whapp-irc, '' @ param @ ''.'') #
            Write ('':whapp-irc 002 '' @ param @ '' Enjoy the ride.'') #
            ev0 @ Sleep (DelayType Second 0) # ev1 @ Sleep (DelayType Second 1) #
            ev2 @ Sleep (DelayType Second 2) # ev3 @ Sleep (DelayType Second 3) # ev4
            @ [Status (''giving up trying to setup whapp bridge: ''
                        @ errorOf [e0, e1, e2, e3, e4]), CancelCtx])
       \<and> list_all (\<lambda>ev. \<exists>rest. ev = BridgeStop # BridgeStart # rest) [ev0, ev1, ev2, ev3, ev4]
       \<and> Some e4 = fst (conn_setup (envs 4) Identifier c4)
       \<and> list_all (\<lambda>ev. ev \<noteq> SocketClose \<and> ev \<noteq> CloseWelcomeCh)
            (snd (snd (BindSocket_nick envs DelayType errorOf Identifier w fetch handle store
                         conn param)))"
proof -
  let ?c0 = "conn\<lparr>nickname := param, welcomed := True\<rparr>"
  let ?tries = "ev0 @ Sleep (DelayType Second 0) # ev1 @ Sleep (DelayType Second 1) #
      ev2 @ Sleep (DelayType Second 2) # ev3 @ Sleep (DelayType Second 3) # ev4"
  let ?evs = "Write ('':whapp-irc 001 '' @ param @ '' Welcome to whapp-irc, '' @ param @ ''.'') #
      Write ('':whapp-irc 002 '' @ param @ '' Enjoy the ride.'') # ?tries
      @ [Status (''giving up trying to setup whapp bridge: '' @ errorOf [e0, e1, e2, e3, e4])]"
  have r: "retry_Do (\<lambda>i. attempt (envs i) Identifier) 5 (DelayType Second) errorOf 0 [] ?c0
     = (Some (errorOf [e0, e1, e2, e3, e4]), c5, ?tries)"
    by (rule retry_Do_five_failures) (fact a0 a1 a2 a3 a4)+
  have h: "handleNick envs DelayType errorOf Identifier w conn param = (Return, c5, ?evs)"
    using fresh nick w1 w2 r
    by (simp add: handleNick_def do_welcome_def writeIRCNow_def)
  have q: "\<forall>ev\<in>set v. \<not> closes ev"
    if "attempt e Identifier c = (x, c', v)" for e c x c' v
    using attempt_closes_nothing [of e Identifier c] that by simp
  have t: "\<forall>ev\<in>set ?tries. \<not> closes ev"
    using q [OF a0] q [OF a1] q [OF a2] q [OF a3] q [OF a4] by auto
  then have n: "\<forall>ev\<in>set ?evs. \<not> closes ev"
    by auto
  then have open_ch: "CloseWelcomeCh \<notin> set ?evs"
    by blast
  have b: "BindSocket_nick envs DelayType errorOf Identifier w fetch handle store conn param
      = (BlockedOnWelcomeCh, c5, ?evs @ [CancelCtx])"
    unfolding BindSocket_nick_def h using open_ch by (simp add: Let_def)
  have s: "\<exists>rest. ev = BridgeStop # BridgeStart # rest"
    if "attempt e Identifier c = (x, c', ev)" for e c x c' ev
    using attempt_stops_then_starts [of e Identifier c] that by simp
  have l: "list_all (\<lambda>ev. \<exists>rest. ev = BridgeStop # BridgeStart # rest) [ev0, ev1, ev2, ev3, ev4]"
    using s [OF a0] s [OF a1] s [OF a2] s [OF a3] s [OF a4] by simp
  have e: "Some e4 = fst (conn_setup (envs 4) Identifier c4)"
    using attempt_error_is_setup_error [of "envs 4" Identifier c4] a4 by simp
  have c: "list_all (\<lambda>ev. ev \<noteq> SocketClose \<and> ev \<noteq> CloseWelcomeCh) (?evs @ [CancelCtx])"
    using n unfolding list_all_iff by auto
  from b l e c show ?thesis
    by (simp only: snd_conv) simp
qed

lemma ex_attempt_down:
  "attempt ex_env_down Name conn
     = (Some ''no browser'', conn,
        [BridgeStop, BridgeStart, Log ''err while setting up: no browser''])"
  by (simp add: attempt_def conn_setup_def ex_env_down_def ex_env_def)

text \<open>
  The bridge cannot start, the library sleeps one second after each failed attempt and
  returns the last error: the run ends with the status line and the cancellation, and
  \<open>BindSocket\<close> stays on its receive.
\<close>

theorem give_up_leaves_BindSocket_blocked_witness:
  "BindSocket_nick (\<lambda>i. ex_env_down) FixedDelay LastError Name ex_write ex_fetch ex_handle ex_save
       MakeConnection ''bob'' =
     (BlockedOnWelcomeCh, MakeConnection\<lparr>nickname := ''bob'', welcomed := True\<rparr>,
      [Write '':whapp-irc 001 bob Welcome to whapp-irc, bob.'',
       Write '':whapp-irc 002 bob Enjoy the ride.'',
       BridgeStop, BridgeStart, Log ''err while setting up: no browser'', Sleep 1000000000,
       BridgeStop, BridgeStart, Log ''err while setting up: no browser'', Sleep 1000000000,
       BridgeStop, BridgeStart, Log ''err while setting up: no browser'', Sleep 1000000000,
       BridgeStop, BridgeStart, Log ''err while setting up: no browser'', Sleep 1000000000,
       BridgeStop, BridgeStart, Log ''err while setting up: no browser'',
       Status ''giving up trying to setup whapp bridge: no browser'',
       CancelCtx])
   \<and> fst (BindSocket_nick (\<lambda>i. ex_env) FixedDelay LastError Name ex_write ex_fetch ex_handle
            ex_save MakeConnection ''bob'') = RelayStarted"
proof -
  have fresh: "\<not> welcomed MakeConnection"
    by (simp add: MakeConnection_def)
  have nick: "''bob'' \<noteq> []" by simp
  have w1: "ex_write ('':whapp-irc 001 '' @ ''bob'' @ '' Welcome to whapp-irc, '' @ ''bob'' @ ''.'') = None"
    by (simp add: ex_write_def)
  have w2: "ex_write ('':whapp-irc 002 '' @ ''bob'' @ '' Enjoy the ride.'') = None"
    by (simp add: ex_write_def)
  from give_up_leaves_BindSocket_blocked [where envs = "\<lambda>i. ex_env_down" and Identifier = Name
      and DelayType = FixedDelay and errorOf = LastError and fetch = ex_fetch
      and handle = ex_handle and store = ex_save,
      OF fresh nick w1 w2 ex_attempt_down ex_attempt_down ex_attempt_down ex_attempt_down
        ex_attempt_down]
  have blocked: "BindSocket_nick (\<lambda>i. ex_env_down) FixedDelay LastError Name ex_write ex_fetch
       ex_handle ex_save MakeConnection ''bob'' =
     (BlockedOnWelcomeCh, MakeConnection\<lparr>nickname := ''bob'', welcomed := True\<rparr>,
      [Write '':whapp-irc 001 bob Welcome to whapp-irc, bob.'',
       Write '':whapp-irc 002 bob Enjoy the ride.'',
       BridgeStop, BridgeStart, Log ''err while setting up: no browser'', Sleep 1000000000,
       BridgeStop, BridgeStart, Log ''err while setting up: no browser'', Sleep 1000000000,
       BridgeStop, BridgeStart, Log ''err while setting up: no browser'', Sleep 1000000000,
       BridgeStop, BridgeStart, Log ''err while setting up: no browser'', Sleep 1000000000,
       BridgeStop, BridgeStart, Log ''err while setting up: no browser'',
       Status ''giving up trying to setup whapp bridge: no browser'',
       CancelCtx])"
    by (simp add: Second_def FixedDelay_def LastError_def)
  let ?c0 = "MakeConnection\<lparr>nickname := ''bob'', welcomed := True\<rparr>"
  have "fst (attempt ex_env Name ?c0) = None"
    by (simp add: attempt_def conn_setup_def setup_restore_def setup_login_def setup_persist_def
        saveDatabaseEntry_def addChat_def convertChat_def ex_env_def ex_save_def ex_parts_def
        MakeConnection_def Let_def)
  then have at: "attempt ex_env Name ?c0
      = (None, fst (snd (attempt ex_env Name ?c0)), snd (snd (attempt ex_env Name ?c0)))"
    by (cases "attempt ex_env Name ?c0") simp
  have five: "(5::nat) = Suc 4" by simp
  have "retry_Do (\<lambda>i. attempt ex_env Name) 5 (FixedDelay Second) LastError 0 [] ?c0
      = (None, fst (snd (attempt ex_env Name ?c0)), snd (snd (attempt ex_env Name ?c0)))"
    unfolding five by (rule retry_Do_success [where f = "\<lambda>i. attempt ex_env Name"]) (rule at)
  then have w: "handleNick (\<lambda>i. ex_env) FixedDelay LastError Name ex_write MakeConnection ''bob''
      = (Continue, fst (snd (attempt ex_env Name
            (MakeConnection\<lparr>nickname := ''bob'', welcomed := True\<rparr>))),
         [Write '':whapp-irc 001 bob Welcome to whapp-irc, bob.'',
          Write '':whapp-irc 002 bob Enjoy the ride.'']
         @ snd (snd (attempt ex_env Name (MakeConnection\<lparr>nickname := ''bob'', welcomed := True\<rparr>)))
         @ [CloseWelcomeCh])"
    by (simp add: handleNick_def do_welcome_def writeIRCNow_def ex_write_def MakeConnection_def
        case_prod_beta)
  have c: "fst (catchup ex_fetch ex_handle ex_save (fst (snd (attempt ex_env Name
            (MakeConnection\<lparr>nickname := ''bob'', welcomed := True\<rparr>))))) = None"
    by (simp add: attempt_def conn_setup_def setup_restore_def setup_login_def setup_persist_def
        saveDatabaseEntry_def addChat_def convertChat_def ex_env_def ex_save_def ex_parts_def
        MakeConnection_def MakeTimestampMap_def Let_def catchup_def catchupChat_def tm_Length_def
        tm_Get_def newChat_def)
  have started: "fst (BindSocket_nick (\<lambda>i. ex_env) FixedDelay LastError Name ex_write ex_fetch
      ex_handle ex_save MakeConnection ''bob'') = RelayStarted"
    unfolding BindSocket_nick_def w using c
    by (simp add: Let_def case_prod_beta split: option.splits)
  from blocked started show ?thesis by simp
qed

section \<open>The characters of a safe string\<close>

lemma inClass_ascii: "r < 128 \<Longrightarrow> inClass r = safeChar r"
  unfolding inClass_def safeChar_def by simp

lemma filter_safe: "\<forall>r\<in>set s. r < 128 \<Longrightarrow> \<forall>r\<in>set (filter (\<lambda>r. \<not> unsafeRegex r) s). safeChar r"
  by (auto simp: unsafeRegex_def inClass_ascii)

lemma safe_not_unsafe: "safeChar r \<Longrightarrow> \<not> unsafeRegex r"
  unfolding unsafeRegex_def inClass_def safeChar_def by blast

text \<open>
  C10. Given that \<open>Unidecode\<close> gives ASCII only and leaves a text of ASCII letters, digits
  and \<open>+\<close> as it is, the result of \<open>ircSafeString\<close> holds only ASCII letters, decimal
  digits and \<open>+\<close>, and \<open>ircSafeString\<close> gives its own result back unchanged.
\<close>

theorem ircSafeString_safe_idempotent:
  assumes ascii: "\<forall>s. \<forall>r\<in>set (Unidecode s). r < 128"
    and ident: "\<forall>s. (\<forall>r\<in>set s. safeChar r) \<longrightarrow> Unidecode s = s"
  shows "(\<forall>r\<in>set (ircSafeString Unidecode str). safeChar r)
       \<and> ircSafeString Unidecode (ircSafeString Unidecode str) = ircSafeString Unidecode str"
proof -
  let ?out = "ircSafeString Unidecode str"
  have safe: "\<forall>r\<in>set ?out. safeChar r"
    unfolding ircSafeString_def using ascii filter_safe by blast
  with ident have "Unidecode ?out = ?out" by blast
  moreover have "filter (\<lambda>r. \<not> unsafeRegex r) ?out = ?out"
    using safe by (simp add: safe_not_unsafe)
  ultimately have "ircSafeString Unidecode ?out = ?out"
    by (simp add: ircSafeString_def)
  with safe show ?thesis by blast
qed


theorem ircSafeString_safe_idempotent_witness:
  "ircSafeString ex_unidecode [75, 233, 0x212A, 43, 32, 55] = [75, 43, 55]
   \<and> list_all safeChar (ircSafeString ex_unidecode [75, 233, 0x212A, 43, 32, 55])
   \<and> ircSafeString ex_unidecode (ircSafeString ex_unidecode [75, 233, 0x212A, 43, 32, 55])
       = ircSafeString ex_unidecode [75, 233, 0x212A, 43, 32, 55]"
proof -
  have a: "\<forall>s. \<forall>r\<in>set (ex_unidecode s). r < 128"
    by (auto simp: ex_unidecode_def)
  have "\<And>r. safeChar r \<Longrightarrow> r < 128"
    by (auto simp: safeChar_def isLower_def isUpper_def isDigit_def)
  then have b: "\<forall>s. (\<forall>r\<in>set s. safeChar r) \<longrightarrow> ex_unidecode s = s"
    by (simp add: ex_unidecode_def map_idI)
  have c: "ircSafeString ex_unidecode [75, 233, 0x212A, 43, 32, 55] = [75, 43, 55]"
    by (simp add: ircSafeString_def ex_unidecode_def unsafeRegex_def inClass_def isLower_def
        isUpper_def isDigit_def)
  from ircSafeString_safe_idempotent [OF a b, of "[75, 233, 0x212A, 43, 32, 55]"] c
  show ?thesis by (simp add: list_all_iff)
qed

end
